theory Spec2Isabelle
  imports Complex_Main "HOL-Library.Multiset" "HOL-Library.Product_Lexorder"
begin

section \<open>Values that cross the HTTP boundary\<close>

text \<open>
  The routes read JSON; \<open>request.json()\<close> and \<open>resp.json()\<close> give a value of this
  type. Numbers are restricted to integers (the routes read no fractional number), and an
  object holds the properties \<open>JSON.parse\<close> produced, looked up with \<open>map_of\<close>.
  Strings are lists of code units below 256.
\<close>

datatype json =
    JNull
  | JBool bool
  | JNum int
  | JStr string
  | JArr "json list"
  | JObj "(string \<times> json) list"

text \<open>
  A thrown JavaScript value. \<open>Error m\<close> is \<open>new Error(m)\<close>; \<open>NotAnError\<close> is a thrown
  value that is not an instance of \<open>Error\<close>. The remaining constructors are the error
  kinds of the retrieval core, annotated with the index of the offending chunk where
  there is one.
\<close>

datatype error =
    Error string
  | NotAnError
  | DimensionMismatch
  | EmbeddingFailure "nat option"
  | UpstreamTimeout "nat option"

record Document =
  pageContent :: string
  metadata :: "(string \<times> string) list"

section \<open>String helpers of the JavaScript runtime\<close>

definition is_ws :: "char \<Rightarrow> bool" where
  "is_ws c = (of_char c \<in> {9, 10, 11, 12, 13, 32, 160 :: nat})"

definition trim :: "string \<Rightarrow> string" where
  "trim s = rev (dropWhile is_ws (rev (dropWhile is_ws s)))"

fun join_with :: "string \<Rightarrow> string list \<Rightarrow> string" where
  "join_with sep [] = []"
| "join_with sep [x] = x"
| "join_with sep (x # y # ys) = x @ sep @ join_with sep (y # ys)"

definition digit_char :: "nat \<Rightarrow> char" where
  "digit_char d = ''0123456789'' ! d"

function show_nat :: "nat \<Rightarrow> string" where
  "show_nat n = (if n < 10 then [digit_char n] else show_nat (n div 10) @ [digit_char (n mod 10)])"
  by pat_completeness auto
termination
  by (relation "measure id") auto

definition show_int :: "int \<Rightarrow> string" where
  "show_int i = (if i < 0 then CHR ''-'' # show_nat (nat (- i)) else show_nat (nat i))"

text \<open>\<open>String(v)\<close> for a parsed JSON value: an array joins its elements with commas, a
  \<open>null\<close> element giving the empty string.\<close>

fun js_String :: "json \<Rightarrow> string" where
  "js_String JNull = ''null''"
| "js_String (JBool b) = (if b then ''true'' else ''false'')"
| "js_String (JNum n) = show_int n"
| "js_String (JStr s) = s"
| "js_String (JArr xs) =
     join_with '','' (map (\<lambda>x. if x = JNull then [] else js_String x) xs)"
| "js_String (JObj kvs) = ''[object Object]''"

section \<open>The YouTube transcript fetcher\<close>

text \<open>\<open>url.match(/[?&]v=([^&]+)/)\<close>: the capture group of the leftmost match.\<close>

fun match_v :: "string \<Rightarrow> string option" where
  "match_v [] = None"
| "match_v (c # cs) =
     (if (c = CHR ''?'' \<or> c = CHR ''&'') \<and> take 2 cs = ''v=''
         \<and> takeWhile (\<lambda>x. x \<noteq> CHR ''&'') (drop 2 cs) \<noteq> []
      then Some (takeWhile (\<lambda>x. x \<noteq> CHR ''&'') (drop 2 cs))
      else match_v cs)"

text \<open>\<open>url.match(/youtu\.be\/([^?]+)/)\<close>.\<close>

fun match_youtu_be :: "string \<Rightarrow> string option" where
  "match_youtu_be [] = None"
| "match_youtu_be (c # cs) =
     (if take 9 (c # cs) = ''youtu.be/''
         \<and> takeWhile (\<lambda>x. x \<noteq> CHR ''?'') (drop 9 (c # cs)) \<noteq> []
      then Some (takeWhile (\<lambda>x. x \<noteq> CHR ''?'') (drop 9 (c # cs)))
      else match_youtu_be cs)"

definition videoIdMatch :: "string \<Rightarrow> string option" where
  "videoIdMatch url = (case match_v url of Some g \<Rightarrow> Some g | None \<Rightarrow> match_youtu_be url)"

text \<open>What \<open>fetch\<close> resolves to: the \<open>ok\<close> flag and the outcome of \<open>resp.json()\<close>.\<close>

record http_response =
  ok :: bool
  body_json :: "error + json"

section \<open>External collaborators\<close>

text \<open>
  The packages the services call are parameters of the model: the text splitter
  (\<open>new RecursiveCharacterTextSplitter({chunkSize, chunkOverlap}).createDocuments([text])\<close>),
  the vector store (\<open>HNSWLib.fromDocuments([], new OpenAIEmbeddings())\<close>, its
  \<open>addDocuments\<close> and \<open>similaritySearch\<close>) and the global \<open>fetch\<close>. A store of type
  \<open>'s\<close> is the contents of the one mutable store object; \<open>addDocuments\<close> returns the
  contents after the call together with the error it threw, if any. Creating the store
  from no documents is taken to succeed.
\<close>

record 's env =
  splitter :: "nat \<Rightarrow> nat \<Rightarrow> string \<Rightarrow> Document list"
  newStore :: "'s"
  addDocuments :: "'s \<Rightarrow> Document list \<Rightarrow> error option \<times> 's"
  storeSimilaritySearch :: "'s \<Rightarrow> string \<Rightarrow> int \<Rightarrow> error + Document list"
  fetch :: "string \<Rightarrow> error + http_response"

definition transcript_endpoint :: "string \<Rightarrow> string" where
  "transcript_endpoint videoId =
     ''https://youtubetranscriptdata.sumanjay.workers.dev/?video_id='' @ videoId"

definition item_text :: "json \<Rightarrow> string" where
  "item_text item =
     (case item of
        JObj kvs \<Rightarrow>
          (case map_of kvs ''text'' of
             None \<Rightarrow> []
           | Some t \<Rightarrow> js_String (if t = JNull then JStr [] else t))
      | _ \<Rightarrow> [])"

definition fetchTranscriptFromYouTube :: "'s env \<Rightarrow> string \<Rightarrow> error + string" where
  "fetchTranscriptFromYouTube env url =
     (case videoIdMatch url of
        None \<Rightarrow> Inl (Error ''Invalid YouTube URL'')
      | Some videoId \<Rightarrow>
          if videoId = [] then Inl (Error ''Invalid YouTube URL'')
          else
            (case fetch env (transcript_endpoint videoId) of
               Inl e \<Rightarrow> Inl e
             | Inr resp \<Rightarrow>
                 if \<not> ok resp then Inl (Error ''Transcript not available'')
                 else
                   (case body_json resp of
                      Inl e \<Rightarrow> Inl e
                    | Inr (JArr items) \<Rightarrow> Inr (join_with '' '' (map item_text items))
                    | Inr _ \<Rightarrow> Inl (Error ''Unexpected transcript format''))))"

section \<open>services/langchain.ts\<close>

text \<open>
  The module variable \<open>vectorStorePromise\<close> is the state: \<open>None\<close> is \<open>null\<close>,
  \<open>Some st\<close> is the promise of the store whose contents are \<open>st\<close>. Every service
  function takes the state and returns it.
\<close>

definition splitToDocuments :: "'s env \<Rightarrow> string \<Rightarrow> Document list" where
  "splitToDocuments env txt = splitter env 1000 200 txt"

definition getVectorStore :: "'s env \<Rightarrow> 's option \<Rightarrow> 's \<times> 's option" where
  "getVectorStore env vectorStorePromise =
     (case vectorStorePromise of
        None \<Rightarrow> (newStore env, Some (newStore env))
      | Some st \<Rightarrow> (st, Some st))"

definition addDocumentsToStore ::
  "'s env \<Rightarrow> Document list \<Rightarrow> 's option \<Rightarrow> error option \<times> 's option" where
  "addDocumentsToStore env docs vectorStorePromise =
     (let (store, p) = getVectorStore env vectorStorePromise;
          (thrown, store') = addDocuments env store docs
      in (thrown, Some store'))"

definition similaritySearch ::
  "'s env \<Rightarrow> string \<Rightarrow> int option \<Rightarrow> 's option \<Rightarrow> (error + Document list) \<times> 's option" where
  "similaritySearch env query k vectorStorePromise =
     (let (store, p) = getVectorStore env vectorStorePromise
      in (storeSimilaritySearch env store query (case k of None \<Rightarrow> 4 | Some n \<Rightarrow> n), p))"

section \<open>The route handlers\<close>

text \<open>
  A handler's answer: \<open>{ok: true, added}\<close>, \<open>{results}\<close>, or \<open>{error: message}\<close> with
  its status. The error field is the message of the caught error; the model keeps the
  error itself.
\<close>

datatype response =
    Json_added nat
  | Json_results "Document list"
  | Json_error nat error

text \<open>\<open>err instanceof Error ? err.message : fallback\<close>\<close>

definition caught :: "string \<Rightarrow> error \<Rightarrow> error" where
  "caught fallback err = (if err = NotAnError then Error fallback else err)"

text \<open>\<open>!v\<close> is \<open>\<not> truthy v\<close>; \<open>None\<close> is \<open>undefined\<close>.\<close>

fun truthy :: "json option \<Rightarrow> bool" where
  "truthy None = False"
| "truthy (Some JNull) = False"
| "truthy (Some (JBool b)) = b"
| "truthy (Some (JNum n)) = (n \<noteq> 0)"
| "truthy (Some (JStr s)) = (s \<noteq> [])"
| "truthy (Some (JArr xs)) = True"
| "truthy (Some (JObj kvs)) = True"

fun is_string :: "json option \<Rightarrow> bool" where
  "is_string (Some (JStr s)) = True"
| "is_string _ = False"

fun string_of :: "json option \<Rightarrow> string" where
  "string_of (Some (JStr s)) = s"
| "string_of _ = []"

text \<open>\<open>form.get("file")\<close>: no entry, a string field, or a file with its text.\<close>

datatype form_entry = No_entry | String_entry string | File_entry string

text \<open>
  Each handler takes what its request yields: \<open>Inl e\<close> when reading the body threw,
  otherwise the field it destructures. The fields \<open>url\<close>, \<open>query\<close> and \<open>k\<close> have the
  types the functions they are passed to declare (\<open>None\<close> is an absent or \<open>null\<close>
  field); \<open>text\<close> is any JSON value, since its handler tests the type.
\<close>

definition upload_POST ::
  "'s env \<Rightarrow> error + form_entry \<Rightarrow> 's option \<Rightarrow> response \<times> 's option" where
  "upload_POST env request p =
     (case request of
        Inl err \<Rightarrow> (Json_error 500 (caught ''Failed to ingest file'' err), p)
      | Inr (File_entry txt) \<Rightarrow>
          (let docs = splitToDocuments env txt;
               (thrown, p') = addDocumentsToStore env docs p
           in case thrown of
                Some err \<Rightarrow> (Json_error 500 (caught ''Failed to ingest file'' err), p')
              | None \<Rightarrow> (Json_added (length docs), p'))
      | Inr _ \<Rightarrow> (Json_error 400 (Error ''No file provided''), p))"

definition text_POST ::
  "'s env \<Rightarrow> error + json option \<Rightarrow> 's option \<Rightarrow> response \<times> 's option" where
  "text_POST env request p =
     (case request of
        Inl err \<Rightarrow> (Json_error 500 (caught ''Failed to ingest text'' err), p)
      | Inr txt \<Rightarrow>
          if \<not> truthy txt \<or> \<not> is_string txt \<or> length (trim (string_of txt)) = 0
          then (Json_error 400 (Error ''Missing text''), p)
          else
            (let docs = splitToDocuments env (string_of txt);
                 (thrown, p') = addDocumentsToStore env docs p
             in case thrown of
                  Some err \<Rightarrow> (Json_error 500 (caught ''Failed to ingest text'' err), p')
                | None \<Rightarrow> (Json_added (length docs), p')))"

definition youtube_POST ::
  "'s env \<Rightarrow> error + string option \<Rightarrow> 's option \<Rightarrow> response \<times> 's option" where
  "youtube_POST env request p =
     (case request of
        Inl err \<Rightarrow> (Json_error 500 (caught ''Failed to ingest YouTube'' err), p)
      | Inr None \<Rightarrow> (Json_error 400 (Error ''Missing url''), p)
      | Inr (Some url) \<Rightarrow>
          if url = [] then (Json_error 400 (Error ''Missing url''), p)
          else
            (case fetchTranscriptFromYouTube env url of
               Inl err \<Rightarrow> (Json_error 500 (caught ''Failed to ingest YouTube'' err), p)
             | Inr transcript \<Rightarrow>
                 (let docs = splitToDocuments env transcript;
                      (thrown, p') = addDocumentsToStore env docs p
                  in case thrown of
                       Some err \<Rightarrow> (Json_error 500 (caught ''Failed to ingest YouTube'' err), p')
                     | None \<Rightarrow> (Json_added (length docs), p'))))"

definition query_POST ::
  "'s env \<Rightarrow> error + (string option \<times> int option) \<Rightarrow> 's option \<Rightarrow> response \<times> 's option" where
  "query_POST env request p =
     (case request of
        Inl err \<Rightarrow> (Json_error 500 (caught ''Failed to query store'' err), p)
      | Inr (None, k) \<Rightarrow> (Json_error 400 (Error ''Missing query''), p)
      | Inr (Some query, k) \<Rightarrow>
          if query = [] then (Json_error 400 (Error ''Missing query''), p)
          else
            (let (outcome, p') =
                   similaritySearch env query (Some (case k of None \<Rightarrow> 4 | Some n \<Rightarrow> n)) p
             in case outcome of
                  Inl err \<Rightarrow> (Json_error 500 (caught ''Failed to query store'' err), p')
                | Inr results \<Rightarrow> (Json_results results, p')))"

section \<open>Sequences of service calls\<close>

text \<open>
  The calls a process makes into \<open>services/langchain.ts\<close> over its lifetime, in order,
  starting from \<open>vectorStorePromise = null\<close>. \<open>run\<close> threads the module variable
  through them; \<open>written\<close> is what one call does to the contents of a store.
\<close>

datatype call = Ingest "Document list" | Query string "int option"

fun run :: "'s env \<Rightarrow> call list \<Rightarrow> 's option \<Rightarrow> 's option" where
  "run env [] p = p"
| "run env (Ingest docs # calls) p = run env calls (snd (addDocumentsToStore env docs p))"
| "run env (Query query k # calls) p = run env calls (snd (similaritySearch env query k p))"

fun written :: "'s env \<Rightarrow> 's \<Rightarrow> call \<Rightarrow> 's" where
  "written env st (Ingest docs) = snd (addDocuments env st docs)"
| "written env st (Query query k) = st"

text \<open>What an ingestion handler hands to the store once it holds a text: the outcome
  of \<open>addDocuments\<close> on the chunks of the text.\<close>

definition stored :: "'s env \<Rightarrow> string \<Rightarrow> 's option \<Rightarrow> error option \<times> 's" where
  "stored env txt p = addDocuments env (fst (getVectorStore env p)) (splitter env 1000 200 txt)"

section \<open>The retrieval core behind the store\<close>

text \<open>
  The vector store is the package \<open>HNSWLib\<close>, whose code is not part of the repository's
  sources. What follows is the store as the specification describes it (sections 3, 4.2,
  4.3 and 4.4), with scores computed in exact real arithmetic.
\<close>

text \<open>Modelled from the spec: an EmbeddingVector, an ordered sequence of numbers.\<close>

type_synonym EmbeddingVector = "real list"

text \<open>Modelled from the spec: an IndexRecord, \<open>{id, vector, chunk}\<close>; a chunk is a
  \<open>Document\<close> of the splitter.\<close>

record IndexRecord =
  record_id :: nat
  vector :: EmbeddingVector
  chunk :: Document

text \<open>Modelled from the spec: a VectorIndex, the records in insertion order.\<close>

type_synonym VectorIndex = "IndexRecord list"

text \<open>Modelled from the spec: a SearchResult, \<open>{chunk, score}\<close>.\<close>

record SearchResult =
  result_chunk :: Document
  score :: real

text \<open>Modelled from the spec: the Embedder capability, \<open>embed(text)\<close>, which gives a
  vector, fails on an upstream error or exceeds its deadline.\<close>

datatype upstream = Upstream_error | Upstream_timeout

type_synonym embedder = "string \<Rightarrow> upstream + EmbeddingVector"

text \<open>Modelled from the spec: cosine similarity, the dot product of the vectors divided
  by the product of their magnitudes.\<close>

definition dot :: "EmbeddingVector \<Rightarrow> EmbeddingVector \<Rightarrow> real" where
  "dot a b = sum_list (map2 (*) a b)"

definition magnitude :: "EmbeddingVector \<Rightarrow> real" where
  "magnitude a = sqrt (dot a a)"

definition cosine_similarity :: "EmbeddingVector \<Rightarrow> EmbeddingVector \<Rightarrow> real" where
  "cosine_similarity a b = dot a b / (magnitude a * magnitude b)"

text \<open>Modelled from the spec: \<open>VectorIndex.add\<close> appends to the backing store and assigns
  the next sequential id; it never looks at the content. The first inserted vector fixes
  the dimension, and a vector of another length fails with \<open>DimensionMismatch\<close>.\<close>

definition index_add :: "VectorIndex \<Rightarrow> EmbeddingVector \<times> Document \<Rightarrow> error + VectorIndex" where
  "index_add idx item =
     (case idx of
        [] \<Rightarrow> Inr [\<lparr>record_id = 0, vector = fst item, chunk = snd item\<rparr>]
      | first # rest \<Rightarrow>
          if length (fst item) \<noteq> length (vector first) then Inl DimensionMismatch
          else Inr (idx @ [\<lparr>record_id = length idx, vector = fst item, chunk = snd item\<rparr>]))"

text \<open>Modelled from the spec: \<open>VectorIndex.addBatch\<close>, equivalent to repeated \<open>add\<close>. The
  result is the error thrown, if any, and the index as the call left it.\<close>

fun addBatch :: "VectorIndex \<Rightarrow> (EmbeddingVector \<times> Document) list \<Rightarrow> error option \<times> VectorIndex" where
  "addBatch idx [] = (None, idx)"
| "addBatch idx (item # items) =
     (case index_add idx item of
        Inl err \<Rightarrow> (Some err, idx)
      | Inr idx' \<Rightarrow> addBatch idx' items)"

text \<open>Modelled from the spec: the order of \<open>VectorIndex.search\<close>, by descending score,
  ties broken by ascending insertion id.\<close>

definition ranking :: "VectorIndex \<Rightarrow> EmbeddingVector \<Rightarrow> IndexRecord list" where
  "ranking idx q = sort_key (\<lambda>r. (- cosine_similarity q (vector r), record_id r)) idx"

text \<open>Modelled from the spec: when one record ranks before another, a higher score
  first, and of two equal scores the earlier id first.\<close>

definition ranks_before :: "EmbeddingVector \<Rightarrow> IndexRecord \<Rightarrow> IndexRecord \<Rightarrow> bool" where
  "ranks_before q a b =
     (cosine_similarity q (vector a) > cosine_similarity q (vector b)
      \<or> (cosine_similarity q (vector a) = cosine_similarity q (vector b) \<and> record_id a \<le> record_id b))"

text \<open>Modelled from the spec: \<open>VectorIndex.search\<close> scores every stored vector against
  the query vector, sorts, and returns the top \<open>k\<close>; a query vector whose length
  disagrees with the index's dimension fails with \<open>DimensionMismatch\<close>; on zero records
  the result is the empty sequence.\<close>

definition search :: "VectorIndex \<Rightarrow> EmbeddingVector \<Rightarrow> int \<Rightarrow> error + SearchResult list" where
  "search idx q k =
     (case idx of
        [] \<Rightarrow> Inr []
      | first # rest \<Rightarrow>
          if length q \<noteq> length (vector first) then Inl DimensionMismatch
          else Inr (map (\<lambda>r. \<lparr>result_chunk = chunk r, score = cosine_similarity q (vector r)\<rparr>)
                      (take (nat k) (ranking idx q))))"

text \<open>Modelled from the spec: the error an embedding failure becomes, annotated with the
  index of the chunk whose embedding failed (none for a query).\<close>

fun upstream_failure :: "upstream \<Rightarrow> nat option \<Rightarrow> error" where
  "upstream_failure Upstream_error place = EmbeddingFailure place"
| "upstream_failure Upstream_timeout place = UpstreamTimeout place"

text \<open>Modelled from the spec: the embedding step of ingestion, one Embedder call per
  chunk in order, the first failure failing the whole step. \<open>i\<close> is the index of the
  first chunk of the list.\<close>

fun embed_chunks :: "embedder \<Rightarrow> nat \<Rightarrow> Document list \<Rightarrow> error + (EmbeddingVector \<times> Document) list" where
  "embed_chunks emb i [] = Inr []"
| "embed_chunks emb i (d # ds) =
     (case emb (pageContent d) of
        Inl u \<Rightarrow> Inl (upstream_failure u (Some i))
      | Inr v \<Rightarrow>
          (case embed_chunks emb (Suc i) ds of
             Inl err \<Rightarrow> Inl err
           | Inr vs \<Rightarrow> Inr ((v, d) # vs)))"

text \<open>Modelled from the spec: \<open>store.addDocuments\<close>, the last two steps of ingestion:
  every chunk is embedded, then the paired (vector, chunk) results go to \<open>addBatch\<close>.\<close>

definition store_addDocuments ::
  "embedder \<Rightarrow> VectorIndex \<Rightarrow> Document list \<Rightarrow> error option \<times> VectorIndex" where
  "store_addDocuments emb idx docs =
     (case embed_chunks emb 0 docs of
        Inl err \<Rightarrow> (Some err, idx)
      | Inr items \<Rightarrow> addBatch idx items)"

text \<open>Modelled from the spec: \<open>store.similaritySearch\<close>, which embeds the text once and
  delegates to \<open>search\<close>. The route hands its results to the response as they are, and
  the response payload is \<open>{results: [{pageContent, metadata?}]}\<close> (section 6, and the
  client's \<open>QueryResult\<close> type), so the store answers with the chunks of the results.\<close>

definition store_similaritySearch ::
  "embedder \<Rightarrow> VectorIndex \<Rightarrow> string \<Rightarrow> int \<Rightarrow> error + Document list" where
  "store_similaritySearch emb idx query k =
     (case emb query of
        Inl u \<Rightarrow> Inl (upstream_failure u None)
      | Inr q \<Rightarrow>
          (case search idx q k of
             Inl err \<Rightarrow> Inl err
           | Inr results \<Rightarrow> Inr (map result_chunk results)))"

text \<open>Modelled from the spec: the collaborators with this store in place of the package;
  a new store holds zero records.\<close>

definition core_env ::
  "embedder \<Rightarrow> (nat \<Rightarrow> nat \<Rightarrow> string \<Rightarrow> Document list) \<Rightarrow> (string \<Rightarrow> error + http_response)
     \<Rightarrow> VectorIndex env" where
  "core_env emb split fetcher =
     \<lparr>splitter = split, newStore = [], addDocuments = store_addDocuments emb,
      storeSimilaritySearch = store_similaritySearch emb, fetch = fetcher\<rparr>"

text \<open>The records the process holds: none before the store exists.\<close>

definition records :: "VectorIndex option \<Rightarrow> VectorIndex" where
  "records p = (case p of None \<Rightarrow> [] | Some idx \<Rightarrow> idx)"

section \<open>A small instance\<close>

text \<open>
  Collaborators for concrete runs: an embedder that knows two texts, fails on
  \<open>boom\<close> and sends every other text north, a splitter that cuts at semicolons and drops blank pieces, and a transcript
  service that answers one video.
\<close>

definition example_embed :: embedder where
  "example_embed t =
     (if t = ''east'' then Inr [1, 0]
      else if t = ''far east'' then Inr [2, 0]
      else if t = ''boom'' then Inl Upstream_error
      else Inr [0, 1])"

fun split_on :: "char \<Rightarrow> string \<Rightarrow> string list" where
  "split_on c [] = [[]]"
| "split_on c (x # xs) =
     (if x = c then [] # split_on c xs
      else (case split_on c xs of [] \<Rightarrow> [[x]] | piece # pieces \<Rightarrow> (x # piece) # pieces))"

definition example_split :: "nat \<Rightarrow> nat \<Rightarrow> string \<Rightarrow> Document list" where
  "example_split chunkSize chunkOverlap t =
     map (\<lambda>piece. \<lparr>pageContent = piece, metadata = []\<rparr>)
       (filter (\<lambda>piece. piece \<noteq> []) (map trim (split_on (CHR '';'') t)))"

definition example_fetch :: "string \<Rightarrow> error + http_response" where
  "example_fetch u =
     (if u = transcript_endpoint ''abc''
      then Inr \<lparr>ok = True,
                body_json = Inr (JArr [JObj [(''text'', JStr ''east'')], JNum 3,
                                       JObj [(''start'', JNum 1), (''text'', JStr ''north'')]])\<rparr>
      else Inr \<lparr>ok = False, body_json = Inl (Error ''no body'')\<rparr>)"

definition example_env :: "VectorIndex env" where
  "example_env = core_env example_embed example_split example_fetch"

definition doc :: "string \<Rightarrow> Document" where
  "doc t = \<lparr>pageContent = t, metadata = []\<rparr>"

definition example_index :: VectorIndex where
  "example_index =
     [\<lparr>record_id = 0, vector = [1, 0], chunk = doc ''east''\<rparr>,
      \<lparr>record_id = 1, vector = [2, 0], chunk = doc ''far east''\<rparr>,
      \<lparr>record_id = 2, vector = [1, 0], chunk = doc ''east''\<rparr>]"

section \<open>The services and the handlers, for any collaborators\<close>

lemma getVectorStore_Some: "getVectorStore env (Some st) = (st, Some st)"
  by (simp add: getVectorStore_def)

lemma getVectorStore_None: "getVectorStore env None = (newStore env, Some (newStore env))"
  by (simp add: getVectorStore_def)

lemma addDocumentsToStore_eq:
  "addDocumentsToStore env docs p =
     (fst (addDocuments env (fst (getVectorStore env p)) docs),
      Some (snd (addDocuments env (fst (getVectorStore env p)) docs)))"
  by (simp add: addDocumentsToStore_def split: prod.splits)

lemma similaritySearch_eq:
  "similaritySearch env query k p =
     (storeSimilaritySearch env (fst (getVectorStore env p)) query (case k of None \<Rightarrow> 4 | Some n \<Rightarrow> n),
      Some (fst (getVectorStore env p)))"
  by (cases p) (simp_all add: similaritySearch_def getVectorStore_def)

lemma run_Some: "run env calls (Some st) = Some (foldl (written env) st calls)"
proof (induction calls arbitrary: st)
  case Nil
  then show ?case by simp
next
  case (Cons c calls)
  then show ?case
    by (cases c) (simp_all add: addDocumentsToStore_eq similaritySearch_eq getVectorStore_Some)
qed

lemma text_POST_accepted:
  "trim txt \<noteq> [] \<Longrightarrow>
   text_POST env (Inr (Some (JStr txt))) p =
     (case fst (stored env txt p) of
        Some err \<Rightarrow> Json_error 500 (caught ''Failed to ingest text'' err)
      | None \<Rightarrow> Json_added (length (splitter env 1000 200 txt)),
      Some (snd (stored env txt p)))"
proof -
  assume t: "trim txt \<noteq> []"
  then have "txt \<noteq> []" by (auto simp: trim_def)
  with t show ?thesis
    by (simp add: text_POST_def stored_def splitToDocuments_def addDocumentsToStore_eq Let_def split: option.splits)
qed

lemma text_POST_refused:
  "\<not> truthy v \<or> \<not> is_string v \<or> trim (string_of v) = [] \<Longrightarrow>
   text_POST env (Inr v) p = (Json_error 400 (Error ''Missing text''), p)"
  by (auto simp: text_POST_def)

lemma upload_POST_file:
  "upload_POST env (Inr (File_entry txt)) p =
     (case fst (stored env txt p) of
        Some err \<Rightarrow> Json_error 500 (caught ''Failed to ingest file'' err)
      | None \<Rightarrow> Json_added (length (splitter env 1000 200 txt)),
      Some (snd (stored env txt p)))"
  by (simp add: upload_POST_def stored_def splitToDocuments_def addDocumentsToStore_eq Let_def split: option.splits)

lemma youtube_POST_transcript:
  "url \<noteq> [] \<Longrightarrow> fetchTranscriptFromYouTube env url = Inr txt \<Longrightarrow>
   youtube_POST env (Inr (Some url)) p =
     (case fst (stored env txt p) of
        Some err \<Rightarrow> Json_error 500 (caught ''Failed to ingest YouTube'' err)
      | None \<Rightarrow> Json_added (length (splitter env 1000 200 txt)),
      Some (snd (stored env txt p)))"
  by (simp add: youtube_POST_def stored_def splitToDocuments_def addDocumentsToStore_eq Let_def split: option.splits)

lemma query_POST_refused:
  "query = None \<or> query = Some [] \<Longrightarrow>
   query_POST env (Inr (query, k)) p = (Json_error 400 (Error ''Missing query''), p)"
  by (auto simp: query_POST_def)

lemma query_POST_searched:
  "query \<noteq> [] \<Longrightarrow>
   query_POST env (Inr (Some query, k)) p =
     (case storeSimilaritySearch env (fst (getVectorStore env p)) query (case k of None \<Rightarrow> 4 | Some n \<Rightarrow> n) of
        Inl err \<Rightarrow> Json_error 500 (caught ''Failed to query store'' err)
      | Inr results \<Rightarrow> Json_results results,
      Some (fst (getVectorStore env p)))"
  by (simp add: query_POST_def similaritySearch_eq split: sum.splits)


lemma text_POST_added:
  assumes a: "text_POST env (Inr v) p = (Json_added n, p')"
  shows "\<exists>t. v = Some (JStr t) \<and> trim t \<noteq> [] \<and> n = length (splitter env 1000 200 t)
               \<and> addDocuments env (fst (getVectorStore env p)) (splitter env 1000 200 t) = (None, the p')
               \<and> p' \<noteq> None"
proof -
  have ok: "\<not> (\<not> truthy v \<or> \<not> is_string v \<or> trim (string_of v) = [])"
  proof
    assume "\<not> truthy v \<or> \<not> is_string v \<or> trim (string_of v) = []"
    then have "text_POST env (Inr v) p = (Json_error 400 (Error ''Missing text''), p)"
      by (rule text_POST_refused)
    with a show False by simp
  qed
  then obtain t where v: "v = Some (JStr t)"
    by (cases v rule: is_string.cases) auto
  with ok have t: "trim t \<noteq> []" by simp
  from a v t show ?thesis
    by (auto simp: text_POST_accepted stored_def split: option.splits intro: prod_eqI)
qed

lemma upload_POST_added:
  assumes "upload_POST env (Inr (File_entry txt)) p = (Json_added n, p')"
  shows "n = length (splitter env 1000 200 txt)
          \<and> addDocuments env (fst (getVectorStore env p)) (splitter env 1000 200 txt) = (None, the p')
          \<and> p' \<noteq> None"
  using assms by (auto simp: upload_POST_file stored_def split: option.splits intro: prod_eqI)

lemma youtube_POST_added:
  assumes a: "youtube_POST env (Inr (Some url)) p = (Json_added n, p')"
  shows "\<exists>t. fetchTranscriptFromYouTube env url = Inr t \<and> n = length (splitter env 1000 200 t)
               \<and> addDocuments env (fst (getVectorStore env p)) (splitter env 1000 200 t) = (None, the p')
               \<and> p' \<noteq> None"
proof -
  from a have u: "url \<noteq> []" by (auto simp: youtube_POST_def)
  with a obtain t where t: "fetchTranscriptFromYouTube env url = Inr t"
    by (cases "fetchTranscriptFromYouTube env url") (auto simp: youtube_POST_def)
  from a show ?thesis
    by (auto simp: youtube_POST_transcript [OF u t] t stored_def split: option.splits intro: prod_eqI)
qed

section \<open>The store\<close>

lemma embed_chunks_length:
  "embed_chunks emb i docs = Inr items \<Longrightarrow> map snd items = docs"
  by (induction docs arbitrary: i items) (auto split: sum.splits)

lemma embed_chunks_fails:
  "\<exists>d \<in> set docs. \<exists>u. emb (pageContent d) = Inl u \<Longrightarrow>
   \<exists>j u. j < length docs \<and> emb (pageContent (docs ! j)) = Inl u
       \<and> (\<forall>m < j. \<exists>v. emb (pageContent (docs ! m)) = Inr v)
       \<and> embed_chunks emb i docs = Inl (upstream_failure u (Some (i + j)))"
proof (induction docs arbitrary: i)
  case Nil
  then show ?case by simp
next
  case (Cons d ds)
  show ?case
  proof (cases "emb (pageContent d)")
    case (Inl u)
    then have "0 < length (d # ds) \<and> emb (pageContent ((d # ds) ! 0)) = Inl u
       \<and> (\<forall>m < 0. \<exists>v. emb (pageContent ((d # ds) ! m)) = Inr v)
       \<and> embed_chunks emb i (d # ds) = Inl (upstream_failure u (Some (i + 0)))"
      by simp
    then show ?thesis by blast
  next
    case (Inr v)
    with Cons.prems have "\<exists>d \<in> set ds. \<exists>u. emb (pageContent d) = Inl u" by auto
    from Cons.IH [OF this, of "Suc i"] obtain j u where
      j: "j < length ds" and e: "emb (pageContent (ds ! j)) = Inl u"
      and before: "\<forall>m < j. \<exists>v. emb (pageContent (ds ! m)) = Inr v"
      and r: "embed_chunks emb (Suc i) ds = Inl (upstream_failure u (Some (Suc i + j)))"
      by blast
    have b': "\<forall>m < Suc j. \<exists>v. emb (pageContent ((d # ds) ! m)) = Inr v"
    proof (intro allI impI)
      fix m assume "m < Suc j"
      then show "\<exists>v. emb (pageContent ((d # ds) ! m)) = Inr v"
        using Inr before by (cases m) auto
    qed
    from j e r Inr have "Suc j < length (d # ds) \<and> emb (pageContent ((d # ds) ! Suc j)) = Inl u
       \<and> embed_chunks emb i (d # ds) = Inl (upstream_failure u (Some (i + Suc j)))"
      by simp
    with b' show ?thesis by blast
  qed
qed

text \<open>The dimension an index has fixed.\<close>

lemma index_add_Inr:
  "index_add idx item = Inr idx' \<Longrightarrow>
     idx' = idx @ [\<lparr>record_id = length idx, vector = fst item, chunk = snd item\<rparr>]
     \<and> (idx \<noteq> [] \<longrightarrow> length (fst item) = length (vector (hd idx)))"
  by (cases idx) (auto simp: index_add_def split: if_splits)

lemma index_add_content_blind:
  "(\<exists>idx'. index_add idx (v, c) = Inr idx') \<longleftrightarrow> (idx = [] \<or> length v = length (vector (hd idx)))"
  by (cases idx) (auto simp: index_add_def)

lemma addBatch_None:
  "addBatch idx items = (None, idx') \<Longrightarrow>
     idx' = idx @ map (\<lambda>(n, item). \<lparr>record_id = n, vector = fst item, chunk = snd item\<rparr>)
                    (zip [length idx ..< length idx + length items] items)"
proof (induction items arbitrary: idx)
  case Nil
  then show ?case by simp
next
  case (Cons item items)
  from Cons.prems obtain mid where m: "index_add idx item = Inr mid" and r: "addBatch mid items = (None, idx')"
    by (auto split: sum.splits)
  from index_add_Inr [OF m] have mid: "mid = idx @ [\<lparr>record_id = length idx, vector = fst item, chunk = snd item\<rparr>]"
    by simp
  from Cons.IH [OF r] mid show ?case
    by (simp add: upt_rec [of "length idx"] del: upt_Suc)
qed

lemma addBatch_dims:
  "addBatch idx items = (None, idx') \<Longrightarrow> items \<noteq> [] \<Longrightarrow>
     idx' \<noteq> [] \<and> (\<forall>item \<in> set items. length (fst item) = length (vector (hd idx')))"
proof (induction items arbitrary: idx)
  case Nil
  then show ?case by simp
next
  case (Cons item items)
  from Cons.prems obtain mid where m: "index_add idx item = Inr mid" and r: "addBatch mid items = (None, idx')"
    by (auto split: sum.splits)
  from index_add_Inr [OF m] have mid: "mid = idx @ [\<lparr>record_id = length idx, vector = fst item, chunk = snd item\<rparr>]"
    and d: "idx \<noteq> [] \<longrightarrow> length (fst item) = length (vector (hd idx))"
    by simp_all
  from addBatch_None [OF r] obtain more where i': "idx' = mid @ more" by blast
  with mid have hd: "hd idx' = hd mid" "idx' \<noteq> []" by (simp_all add: hd_append)
  have first: "length (fst item) = length (vector (hd idx'))"
    using hd mid d by (cases idx) simp_all
  show ?case
  proof (cases items)
    case Nil
    with first hd show ?thesis by simp
  next
    case (Cons a b)
    with Cons.IH [OF r] first hd show ?thesis by simp
  qed
qed

lemma addBatch_accepts:
  "idx \<noteq> [] \<Longrightarrow> \<forall>item \<in> set items. length (fst item) = length (vector (hd idx)) \<Longrightarrow>
     \<exists>idx'. addBatch idx items = (None, idx')"
proof (induction items arbitrary: idx)
  case Nil
  then show ?case by simp
next
  case (Cons item items)
  let ?mid = "idx @ [\<lparr>record_id = length idx, vector = fst item, chunk = snd item\<rparr>]"
  from Cons.prems have m: "index_add idx item = Inr ?mid"
    by (cases idx) (simp_all add: index_add_def)
  from Cons.prems have "?mid \<noteq> []" "\<forall>item \<in> set items. length (fst item) = length (vector (hd ?mid))"
    by simp_all
  from Cons.IH [OF this] m show ?case by simp
qed

lemma addBatch_again:
  assumes "addBatch idx items = (None, idx')"
  shows "\<exists>idx''. addBatch idx' items = (None, idx'')"
proof (cases items)
  case Nil
  then show ?thesis by simp
next
  case (Cons a b)
  with addBatch_dims [OF assms] have "idx' \<noteq> []"
    and "\<forall>item \<in> set items. length (fst item) = length (vector (hd idx'))" by simp_all
  then show ?thesis by (rule addBatch_accepts)
qed

lemma chunks_of_numbered:
  "length ns = length items \<Longrightarrow>
   map chunk (map (\<lambda>(n, item). \<lparr>record_id = n, vector = fst item, chunk = snd item\<rparr>) (zip ns items))
     = map snd items"
  by (induction ns items rule: list_induct2) simp_all

lemma store_addDocuments_None:
  "store_addDocuments emb idx docs = (None, idx') \<Longrightarrow>
     length idx' = length idx + length docs \<and> take (length idx) idx' = idx
     \<and> map chunk (drop (length idx) idx') = docs"
proof -
  assume a: "store_addDocuments emb idx docs = (None, idx')"
  then obtain items where e: "embed_chunks emb 0 docs = Inr items" and b: "addBatch idx items = (None, idx')"
    by (auto simp: store_addDocuments_def split: sum.splits)
  from embed_chunks_length [OF e] have l: "map snd items = docs" .
  then have ll: "length items = length docs" by (metis length_map)
  from addBatch_None [OF b] have i': "idx' = idx @ map (\<lambda>(n, item). \<lparr>record_id = n, vector = fst item, chunk = snd item\<rparr>)
                    (zip [length idx ..< length idx + length items] items)" .
  have "map chunk (map (\<lambda>(n, item). \<lparr>record_id = n, vector = fst item, chunk = snd item\<rparr>)
                    (zip [length idx ..< length idx + length items] items)) = map snd items"
    by (rule chunks_of_numbered) simp
  with i' l ll show ?thesis by simp
qed

lemma store_addDocuments_again:
  assumes "store_addDocuments emb idx docs = (None, idx')"
  shows "\<exists>idx''. store_addDocuments emb idx' docs = (None, idx'')"
proof -
  from assms obtain items where e: "embed_chunks emb 0 docs = Inr items" and b: "addBatch idx items = (None, idx')"
    by (auto simp: store_addDocuments_def split: sum.splits)
  from addBatch_again [OF b] e show ?thesis by (simp add: store_addDocuments_def)
qed

lemma ranking_mset: "mset (ranking idx q) = mset idx"
  by (simp add: ranking_def)

lemma ranking_set: "set (ranking idx q) = set idx"
  by (simp add: ranking_def)

lemma ranking_sorted: "sorted_wrt (ranks_before q) (ranking idx q)"
proof -
  let ?key = "\<lambda>r. (- cosine_similarity q (vector r), record_id r)"
  have "sorted (map ?key (ranking idx q))"
    unfolding ranking_def by (rule sorted_sort_key)
  then have "sorted_wrt (\<lambda>a b. ?key a \<le> ?key b) (ranking idx q)"
    by (simp add: sorted_map)
  moreover have "?key a \<le> ?key b \<Longrightarrow> ranks_before q a b" for a b
    by (auto simp: ranks_before_def less_eq_prod_def)
  ultimately show ?thesis
    by (rule sorted_wrt_mono_rel [rotated]) simp
qed

lemma top_sorted: "sorted_wrt (ranks_before q) (take n (ranking idx q))"
  using ranking_sorted by (rule sorted_wrt_take)

lemma ranks_before_score:
  "ranks_before q a b \<Longrightarrow> cosine_similarity q (vector b) \<le> cosine_similarity q (vector a)"
  by (auto simp: ranks_before_def)

lemma between_equal_scores:
  assumes s: "sorted_wrt (ranks_before q) rs"
    and i: "i < m" "m < j" "j < length rs"
    and v: "vector (rs ! i) = vector (rs ! j)"
  shows "cosine_similarity q (vector (rs ! m)) = cosine_similarity q (vector (rs ! i))"
proof -
  from s i have "ranks_before q (rs ! i) (rs ! m)"
    by (simp add: sorted_wrt_iff_nth_less)
  then have a: "cosine_similarity q (vector (rs ! m)) \<le> cosine_similarity q (vector (rs ! i))"
    by (rule ranks_before_score)
  from s i have "ranks_before q (rs ! m) (rs ! j)"
    by (simp add: sorted_wrt_iff_nth_less)
  then have "cosine_similarity q (vector (rs ! j)) \<le> cosine_similarity q (vector (rs ! m))"
    by (rule ranks_before_score)
  with a v show ?thesis by simp
qed

lemma search_Inr:
  "search idx q k = Inr results \<Longrightarrow>
     results = map (\<lambda>r. \<lparr>result_chunk = chunk r, score = cosine_similarity q (vector r)\<rparr>)
                 (take (nat k) (ranking idx q))"
  by (cases idx) (auto simp: search_def ranking_def split: if_splits)

lemma search_results_from_index:
  assumes "search idx q k = Inr results" "r \<in> set results"
  shows "\<exists>ir \<in> set idx. result_chunk r = chunk ir \<and> score r = cosine_similarity q (vector ir)"
proof -
  from search_Inr [OF assms(1)] assms(2) obtain ir where
    "ir \<in> set (take (nat k) (ranking idx q))"
    "r = \<lparr>result_chunk = chunk ir, score = cosine_similarity q (vector ir)\<rparr>"
    by auto
  moreover then have "ir \<in> set idx"
    using ranking_set [of idx q] by (auto dest: in_set_takeD)
  ultimately show ?thesis by auto
qed

lemma sequential_distinct:
  "map record_id idx = [0 ..< length idx] \<Longrightarrow> distinct (map record_id (take n (ranking idx q)))"
proof -
  assume a: "map record_id idx = [0 ..< length idx]"
  have "mset (map record_id (ranking idx q)) = mset (map record_id idx)"
    by (simp add: ranking_mset)
  then have "distinct (map record_id (ranking idx q)) = distinct (map record_id idx)"
    by (rule mset_eq_imp_distinct_iff)
  with a have "distinct (map record_id (ranking idx q))" by simp
  then show ?thesis
    by (simp add: take_map [symmetric] distinct_take del: take_map)
qed

lemma top_sorted_strict:
  assumes "map record_id idx = [0 ..< length idx]"
  shows "sorted_wrt (\<lambda>a b. cosine_similarity q (vector a) > cosine_similarity q (vector b)
      \<or> (cosine_similarity q (vector a) = cosine_similarity q (vector b) \<and> record_id a < record_id b))
      (take n (ranking idx q))"
proof -
  let ?rs = "take n (ranking idx q)"
  from sequential_distinct [OF assms] have d: "distinct (map record_id ?rs)" .
  have s: "sorted_wrt (ranks_before q) ?rs" by (rule top_sorted)
  show ?thesis
    unfolding sorted_wrt_iff_nth_less
  proof (intro allI impI)
    fix i j assume ij: "i < j" "j < length ?rs"
    with s have "ranks_before q (?rs ! i) (?rs ! j)" by (simp add: sorted_wrt_iff_nth_less)
    moreover from d ij have "record_id (?rs ! i) \<noteq> record_id (?rs ! j)"
      using nth_eq_iff_index_eq [of "map record_id ?rs" i j] by simp
    ultimately show "cosine_similarity q (vector (?rs ! i)) > cosine_similarity q (vector (?rs ! j))
      \<or> (cosine_similarity q (vector (?rs ! i)) = cosine_similarity q (vector (?rs ! j))
          \<and> record_id (?rs ! i) < record_id (?rs ! j))"
      by (auto simp: ranks_before_def)
  qed
qed

lemma index_add_sequential:
  assumes a: "map record_id idx = [0 ..< length idx]" and b: "index_add idx item = Inr idx'"
  shows "map record_id idx' = [0 ..< length idx']"
proof -
  have "idx' = idx @ [\<lparr>record_id = length idx, vector = fst item, chunk = snd item\<rparr>]"
    using b by (cases idx) (auto simp: index_add_def split: if_splits)
  then have "map record_id idx' = map record_id idx @ [length idx]" "length idx' = Suc (length idx)"
    by simp_all
  then show ?thesis by (simp only: a upt_Suc_append le0 if_True)
qed

section \<open>The transcript fetcher\<close>

lemma match_v_nonempty: "match_v url = Some g \<Longrightarrow> g \<noteq> []"
  by (induction url) (auto split: if_splits)

lemma match_youtu_be_nonempty: "match_youtu_be url = Some g \<Longrightarrow> g \<noteq> []"
  by (induction url) (auto split: if_splits)

lemma videoIdMatch_nonempty: "videoIdMatch url = Some g \<Longrightarrow> g \<noteq> []"
  by (auto simp: videoIdMatch_def match_v_nonempty match_youtu_be_nonempty split: option.splits)

text \<open>The first pattern matches exactly the strings that hold \<open>?v=\<close> or \<open>&v=\<close> followed
  by a character other than \<open>&\<close>.\<close>

lemma match_v_Some_iff:
  "(\<exists>g. match_v url = Some g) \<longleftrightarrow>
   (\<exists>pre c x rest. url = pre @ c # ''v='' @ x # rest
       \<and> (c = CHR ''?'' \<or> c = CHR ''&'') \<and> x \<noteq> CHR ''&'')"
proof (induction url)
  case Nil
  then show ?case by simp
next
  case (Cons a url)
  let ?here = "(a = CHR ''?'' \<or> a = CHR ''&'') \<and> take 2 url = ''v=''
         \<and> takeWhile (\<lambda>x. x \<noteq> CHR ''&'') (drop 2 url) \<noteq> []"
  show ?case
  proof (cases ?here)
    case True
    then obtain x rest where dr: "drop 2 url = x # rest" and x: "x \<noteq> CHR ''&''"
      by (cases "drop 2 url") (auto split: if_splits)
    from True have "url = ''v='' @ drop 2 url"
      by (metis append_take_drop_id)
    with dr have "a # url = [] @ a # ''v='' @ x # rest" by simp
    moreover from True have "\<exists>g. match_v (a # url) = Some g" by simp
    moreover from True have "a = CHR ''?'' \<or> a = CHR ''&''" by simp
    ultimately show ?thesis using x by blast
  next
    case False
    have "(\<exists>pre c x rest. a # url = pre @ c # ''v='' @ x # rest
              \<and> (c = CHR ''?'' \<or> c = CHR ''&'') \<and> x \<noteq> CHR ''&'')
       \<longleftrightarrow> (\<exists>pre c x rest. url = pre @ c # ''v='' @ x # rest
              \<and> (c = CHR ''?'' \<or> c = CHR ''&'') \<and> x \<noteq> CHR ''&'')"
      (is "?L \<longleftrightarrow> ?R")
    proof
      assume ?L
      then obtain pre c x rest where e: "a # url = pre @ c # ''v='' @ x # rest"
        and c: "c = CHR ''?'' \<or> c = CHR ''&''" and x: "x \<noteq> CHR ''&''" by blast
      show ?R
      proof (cases pre)
        case Nil
        with e have "a = c" "url = ''v='' @ x # rest" by auto
        with c x False show ?thesis by auto
      next
        case (Cons p ps)
        with e have "url = ps @ c # ''v='' @ x # rest" by simp
        with c x show ?thesis by blast
      qed
    next
      assume ?R
      then obtain pre c x rest where e: "url = pre @ c # ''v='' @ x # rest"
        and c: "c = CHR ''?'' \<or> c = CHR ''&''" and x: "x \<noteq> CHR ''&''" by blast
      then have "a # url = (a # pre) @ c # ''v='' @ x # rest" by simp
      with c x show ?L by blast
    qed
    moreover from False have "match_v (a # url) = match_v url" by auto
    ultimately show ?thesis using Cons.IH by (simp only:)
  qed
qed

text \<open>The second pattern matches exactly the strings that hold \<open>youtu.be/\<close> followed by
  a character other than \<open>?\<close>.\<close>

lemma match_youtu_be_Some_iff:
  "(\<exists>g. match_youtu_be url = Some g) \<longleftrightarrow>
   (\<exists>pre x rest. url = pre @ ''youtu.be/'' @ x # rest \<and> x \<noteq> CHR ''?'')"
proof (induction url)
  case Nil
  then show ?case by simp
next
  case (Cons a url)
  let ?here = "take 9 (a # url) = ''youtu.be/''
         \<and> takeWhile (\<lambda>x. x \<noteq> CHR ''?'') (drop 9 (a # url)) \<noteq> []"
  show ?case
  proof (cases ?here)
    case True
    then obtain x rest where dr: "drop 9 (a # url) = x # rest" and x: "x \<noteq> CHR ''?''"
      by (cases "drop 9 (a # url)") (auto split: if_splits)
    from True have "a # url = ''youtu.be/'' @ drop 9 (a # url)"
      by (metis append_take_drop_id)
    with dr have "a # url = [] @ ''youtu.be/'' @ x # rest" by simp
    moreover from True have "\<exists>g. match_youtu_be (a # url) = Some g" by simp
    ultimately show ?thesis using x by blast
  next
    case False
    have "(\<exists>pre x rest. a # url = pre @ ''youtu.be/'' @ x # rest \<and> x \<noteq> CHR ''?'')
       \<longleftrightarrow> (\<exists>pre x rest. url = pre @ ''youtu.be/'' @ x # rest \<and> x \<noteq> CHR ''?'')"
      (is "?L \<longleftrightarrow> ?R")
    proof
      assume ?L
      then obtain pre x rest where e: "a # url = pre @ ''youtu.be/'' @ x # rest"
        and x: "x \<noteq> CHR ''?''" by blast
      show ?R
      proof (cases pre)
        case Nil
        with e have "a # url = ''youtu.be/'' @ x # rest" by simp
        then have "take 9 (a # url) = ''youtu.be/''" "drop 9 (a # url) = x # rest" by simp_all
        with x False show ?thesis by simp
      next
        case (Cons p ps)
        with e have "url = ps @ ''youtu.be/'' @ x # rest" by simp
        with x show ?thesis by blast
      qed
    next
      assume ?R
      then obtain pre x rest where e: "url = pre @ ''youtu.be/'' @ x # rest"
        and x: "x \<noteq> CHR ''?''" by blast
      then have "a # url = (a # pre) @ ''youtu.be/'' @ x # rest" by simp
      with x show ?L by blast
    qed
    moreover from False have "match_youtu_be (a # url) = match_youtu_be url" by auto
    ultimately show ?thesis using Cons.IH by (simp only:)
  qed
qed

lemma videoIdMatch_None_iff:
  "videoIdMatch url = None \<longleftrightarrow>
     \<not> (\<exists>pre c x rest. url = pre @ c # ''v='' @ x # rest
            \<and> (c = CHR ''?'' \<or> c = CHR ''&'') \<and> x \<noteq> CHR ''&'')
   \<and> \<not> (\<exists>pre x rest. url = pre @ ''youtu.be/'' @ x # rest \<and> x \<noteq> CHR ''?'')"
proof -
  have "videoIdMatch url = None \<longleftrightarrow> \<not> (\<exists>g. match_v url = Some g) \<and> \<not> (\<exists>g. match_youtu_be url = Some g)"
    by (auto simp: videoIdMatch_def split: option.splits)
  then show ?thesis
    by (simp only: match_v_Some_iff match_youtu_be_Some_iff)
qed

lemma item_text_no_field:
  "\<not> (\<exists>kvs t. item = JObj kvs \<and> map_of kvs ''text'' = Some t) \<Longrightarrow> item_text item = []"
  by (cases item) (auto simp: item_text_def split: option.splits)

lemma item_text_string:
  "map_of kvs ''text'' = Some (JStr s) \<Longrightarrow> item_text (JObj kvs) = s"
  by (simp add: item_text_def)

lemma fetch_fails_iff:
  "(\<exists>e. fetchTranscriptFromYouTube env url = Inl e) \<longleftrightarrow>
     (videoIdMatch url = None
      \<or> (\<exists>vid. videoIdMatch url = Some vid
             \<and> (\<forall>resp. fetch env (transcript_endpoint vid) = Inr resp \<longrightarrow> \<not> ok resp))
      \<or> (\<exists>vid resp. videoIdMatch url = Some vid
             \<and> fetch env (transcript_endpoint vid) = Inr resp
             \<and> (\<forall>items. body_json resp \<noteq> Inr (JArr items))))"
proof (cases "videoIdMatch url")
  case None
  then show ?thesis by (simp add: fetchTranscriptFromYouTube_def)
next
  case (Some vid)
  then have ne: "vid \<noteq> []" by (rule videoIdMatch_nonempty)
  show ?thesis
  proof (cases "fetch env (transcript_endpoint vid)")
    case (Inl e)
    with Some ne show ?thesis by (simp add: fetchTranscriptFromYouTube_def)
  next
    case (Inr resp)
    show ?thesis
    proof (cases "ok resp")
      case False
      with Some ne Inr show ?thesis by (simp add: fetchTranscriptFromYouTube_def)
    next
      case True
      with Some ne Inr show ?thesis
        by (auto simp: fetchTranscriptFromYouTube_def split: sum.splits json.splits)
    qed
  qed
qed

lemma fetch_succeeds:
  "videoIdMatch url = Some vid \<Longrightarrow> fetch env (transcript_endpoint vid) = Inr resp \<Longrightarrow> ok resp
   \<Longrightarrow> body_json resp = Inr (JArr items)
   \<Longrightarrow> fetchTranscriptFromYouTube env url = Inr (join_with '' '' (map item_text items))"
  by (simp add: fetchTranscriptFromYouTube_def videoIdMatch_nonempty)

text \<open>
  C10. The transcript fetcher fails exactly when no video id can be extracted from the
  URL, the transcript service does not answer ok, or the body of its answer is not an
  array. A video id is extracted exactly when the URL holds \<open>?v=\<close> or \<open>&v=\<close> followed
  by a character other than \<open>&\<close>, or \<open>youtu.be/\<close> followed by a character other than
  \<open>?\<close>. A \<open>fetch\<close> that rejects counts as the service not answering ok, and a body that
  is not JSON as a body that is not an array. Otherwise the result is the items' texts
  joined with single spaces, where an item that is not an object with a \<open>text\<close> field
  gives the empty string and an item whose \<open>text\<close> is a string gives that string.
\<close>

theorem fetchTranscriptFromYouTube_outcome:
  "((\<exists>e. fetchTranscriptFromYouTube env url = Inl e) \<longleftrightarrow>
      (videoIdMatch url = None
       \<or> (\<exists>vid. videoIdMatch url = Some vid
              \<and> (\<forall>resp. fetch env (transcript_endpoint vid) = Inr resp \<longrightarrow> \<not> ok resp))
       \<or> (\<exists>vid resp. videoIdMatch url = Some vid
              \<and> fetch env (transcript_endpoint vid) = Inr resp
              \<and> (\<forall>items. body_json resp \<noteq> Inr (JArr items)))))
   \<and> (videoIdMatch url = None \<longleftrightarrow>
         \<not> (\<exists>pre c x rest. url = pre @ c # ''v='' @ x # rest
                \<and> (c = CHR ''?'' \<or> c = CHR ''&'') \<and> x \<noteq> CHR ''&'')
       \<and> \<not> (\<exists>pre x rest. url = pre @ ''youtu.be/'' @ x # rest \<and> x \<noteq> CHR ''?''))
   \<and> (\<forall>vid resp items.
         videoIdMatch url = Some vid \<and> fetch env (transcript_endpoint vid) = Inr resp
           \<and> ok resp \<and> body_json resp = Inr (JArr items)
         \<longrightarrow> fetchTranscriptFromYouTube env url = Inr (join_with '' '' (map item_text items)))
   \<and> (\<forall>item. \<not> (\<exists>kvs t. item = JObj kvs \<and> map_of kvs ''text'' = Some t) \<longrightarrow> item_text item = [])
   \<and> (\<forall>kvs s. map_of kvs ''text'' = Some (JStr s) \<longrightarrow> item_text (JObj kvs) = s)"
proof (intro conjI allI impI)
  show "(\<exists>e. fetchTranscriptFromYouTube env url = Inl e) \<longleftrightarrow>
      (videoIdMatch url = None
       \<or> (\<exists>vid. videoIdMatch url = Some vid
              \<and> (\<forall>resp. fetch env (transcript_endpoint vid) = Inr resp \<longrightarrow> \<not> ok resp))
       \<or> (\<exists>vid resp. videoIdMatch url = Some vid
              \<and> fetch env (transcript_endpoint vid) = Inr resp
              \<and> (\<forall>items. body_json resp \<noteq> Inr (JArr items))))"
    by (rule fetch_fails_iff)
  show "videoIdMatch url = None \<longleftrightarrow>
         \<not> (\<exists>pre c x rest. url = pre @ c # ''v='' @ x # rest
                \<and> (c = CHR ''?'' \<or> c = CHR ''&'') \<and> x \<noteq> CHR ''&'')
       \<and> \<not> (\<exists>pre x rest. url = pre @ ''youtu.be/'' @ x # rest \<and> x \<noteq> CHR ''?'')"
    by (rule videoIdMatch_None_iff)
next
  fix vid resp items
  assume "videoIdMatch url = Some vid \<and> fetch env (transcript_endpoint vid) = Inr resp
           \<and> ok resp \<and> body_json resp = Inr (JArr items)"
  then show "fetchTranscriptFromYouTube env url = Inr (join_with '' '' (map item_text items))"
    by (simp add: fetch_succeeds)
next
  fix item
  assume "\<not> (\<exists>kvs t. item = JObj kvs \<and> map_of kvs ''text'' = Some t)"
  then show "item_text item = []" by (rule item_text_no_field)
next
  fix kvs s
  assume "map_of kvs ''text'' = Some (JStr s)"
  then show "item_text (JObj kvs) = s" by (rule item_text_string)
qed

theorem fetchTranscriptFromYouTube_outcome_witness:
  "fetchTranscriptFromYouTube example_env ''https://youtu.be/abc'' = Inr ''east  north''
   \<and> (\<exists>e. fetchTranscriptFromYouTube example_env ''https://example.com/watch?v=zzz'' = Inl e)
   \<and> (\<exists>e. fetchTranscriptFromYouTube example_env ''https://example.com/'' = Inl e)"
proof -
  let ?resp = "\<lparr>ok = True,
                body_json = Inr (JArr [JObj [(''text'', JStr ''east'')], JNum 3,
                                       JObj [(''start'', JNum 1), (''text'', JStr ''north'')]])\<rparr>"
  have id1: "videoIdMatch ''https://youtu.be/abc'' = Some ''abc''"
    by (simp add: videoIdMatch_def)
  have f1: "fetch example_env (transcript_endpoint ''abc'') = Inr ?resp"
    by (simp add: example_env_def core_env_def example_fetch_def)
  have "fetchTranscriptFromYouTube example_env ''https://youtu.be/abc''
          = Inr (join_with '' '' (map item_text [JObj [(''text'', JStr ''east'')], JNum 3,
                                       JObj [(''start'', JNum 1), (''text'', JStr ''north'')]]))"
    using fetchTranscriptFromYouTube_outcome [of example_env "''https://youtu.be/abc''"] id1 f1
    by simp
  then have a: "fetchTranscriptFromYouTube example_env ''https://youtu.be/abc'' = Inr ''east  north''"
    by (simp add: item_text_def)
  have id2: "videoIdMatch ''https://example.com/watch?v=zzz'' = Some ''zzz''"
    by (simp add: videoIdMatch_def)
  have f2: "\<forall>resp. fetch example_env (transcript_endpoint ''zzz'') = Inr resp \<longrightarrow> \<not> ok resp"
    by (simp add: example_env_def core_env_def example_fetch_def transcript_endpoint_def)
  have b: "\<exists>e. fetchTranscriptFromYouTube example_env ''https://example.com/watch?v=zzz'' = Inl e"
    using fetchTranscriptFromYouTube_outcome [of example_env "''https://example.com/watch?v=zzz''"] id2 f2
    by blast
  have id3: "videoIdMatch ''https://example.com/'' = None"
    by (simp add: videoIdMatch_def)
  have c: "\<exists>e. fetchTranscriptFromYouTube example_env ''https://example.com/'' = Inl e"
    using fetchTranscriptFromYouTube_outcome [of example_env "''https://example.com/''"] id3
    by blast
  from a b c show ?thesis by blast
qed

lemma core_env_sel:
  "splitter (core_env emb split f) = split"
  "newStore (core_env emb split f) = []"
  "addDocuments (core_env emb split f) = store_addDocuments emb"
  "storeSimilaritySearch (core_env emb split f) = store_similaritySearch emb"
  "fetch (core_env emb split f) = f"
  by (simp_all add: core_env_def)

lemma core_env_store: "fst (getVectorStore (core_env emb split f) p) = records p"
  by (cases p) (simp_all add: getVectorStore_def records_def core_env_def)

lemmas score_defs = cosine_similarity_def dot_def magnitude_def

text \<open>The ids of an index built by \<open>add\<close> alone are the sequential ones.\<close>

lemma addBatch_sequential:
  "map record_id idx = [0 ..< length idx] \<Longrightarrow>
   map record_id (snd (addBatch idx items)) = [0 ..< length (snd (addBatch idx items))]"
proof (induction items arbitrary: idx)
  case Nil
  then show ?case by simp
next
  case (Cons item items)
  show ?case
  proof (cases "index_add idx item")
    case (Inl err)
    with Cons.prems show ?thesis by simp
  next
    case (Inr mid)
    from index_add_sequential [OF Cons.prems Inr]
    have "map record_id (snd (addBatch mid items)) = [0 ..< length (snd (addBatch mid items))]"
      by (rule Cons.IH)
    with Inr show ?thesis by simp
  qed
qed

lemma store_addDocuments_sequential:
  "map record_id idx = [0 ..< length idx] \<Longrightarrow>
   map record_id (snd (store_addDocuments emb idx docs))
     = [0 ..< length (snd (store_addDocuments emb idx docs))]"
  by (cases "embed_chunks emb 0 docs") (simp_all add: store_addDocuments_def addBatch_sequential)

lemma written_sequential:
  "map record_id idx = [0 ..< length idx] \<Longrightarrow>
   map record_id (foldl (written (core_env emb split f)) idx calls)
     = [0 ..< length (foldl (written (core_env emb split f)) idx calls)]"
proof (induction calls arbitrary: idx)
  case Nil
  then show ?case by simp
next
  case (Cons c calls)
  from Cons.prems have "map record_id (written (core_env emb split f) idx c)
     = [0 ..< length (written (core_env emb split f) idx c)]"
    by (cases c) (simp_all add: core_env_sel store_addDocuments_sequential)
  then show ?case by (simp add: Cons.IH)
qed

lemma run_sequential:
  "map record_id (records (run (core_env emb split f) calls None))
     = [0 ..< length (records (run (core_env emb split f) calls None))]"
proof (cases calls)
  case Nil
  then show ?thesis by (simp add: records_def)
next
  case (Cons c cs)
  have "run (core_env emb split f) (c # cs) None
          = Some (foldl (written (core_env emb split f)) [] (c # cs))"
    by (cases c)
      (simp_all add: addDocumentsToStore_eq similaritySearch_eq getVectorStore_None run_Some core_env_sel)
  with Cons show ?thesis
    using written_sequential [of "[]" emb split f "c # cs"]
    by (simp add: records_def)
qed

section \<open>One store for the process\<close>

text \<open>
  C7. The store is created by the first call that needs it and every later ingestion and
  query works on that one store: from \<open>null\<close>, \<open>getVectorStore\<close> creates the store and
  caches it; from then on it returns the cached store. After any sequence of service
  calls the module variable holds the new store with every ingestion of the sequence
  applied in order, and a query made afterwards searches exactly those contents.
\<close>

theorem vector_store_lazy_and_shared:
  "getVectorStore env None = (newStore env, Some (newStore env))
   \<and> getVectorStore env (Some st) = (st, Some st)
   \<and> run env calls None = (if calls = [] then None else Some (foldl (written env) (newStore env) calls))
   \<and> fst (similaritySearch env query k (run env (call # calls) None))
        = storeSimilaritySearch env (foldl (written env) (newStore env) (call # calls)) query
            (case k of None \<Rightarrow> 4 | Some n \<Rightarrow> n)"
proof -
  have r: "run env (c # cs) None = Some (foldl (written env) (newStore env) (c # cs))" for c cs
    by (cases c) (simp_all add: addDocumentsToStore_eq similaritySearch_eq getVectorStore_None run_Some)
  have "run env calls None = (if calls = [] then None else Some (foldl (written env) (newStore env) calls))"
  proof (cases calls)
    case Nil
    then show ?thesis by simp
  next
    case (Cons c cs)
    then show ?thesis by (simp only: r list.distinct if_False)
  qed
  moreover have "fst (similaritySearch env query k (run env (call # calls) None))
        = storeSimilaritySearch env (foldl (written env) (newStore env) (call # calls)) query
            (case k of None \<Rightarrow> 4 | Some n \<Rightarrow> n)"
    by (simp only: r similaritySearch_eq getVectorStore_Some fst_conv)
  ultimately show ?thesis
    by (simp only: getVectorStore_None getVectorStore_Some simp_thms)
qed

theorem vector_store_lazy_and_shared_witness:
  "run example_env [Query ''north'' None, Ingest [doc ''east''], Ingest [doc ''far east'']] None
     = Some [\<lparr>record_id = 0, vector = [1, 0], chunk = doc ''east''\<rparr>,
             \<lparr>record_id = 1, vector = [2, 0], chunk = doc ''far east''\<rparr>]
   \<and> fst (similaritySearch example_env ''north'' (Some 1)
            (run example_env [Ingest [doc ''east''], Ingest [doc ''far east'']] None))
       = Inr [doc ''east'']"
proof -
  have w: "foldl (written example_env) (newStore example_env) [Ingest [doc ''east''], Ingest [doc ''far east'']]
     = [\<lparr>record_id = 0, vector = [1, 0], chunk = doc ''east''\<rparr>,
             \<lparr>record_id = 1, vector = [2, 0], chunk = doc ''far east''\<rparr>]"
    by (simp add: example_env_def core_env_sel store_addDocuments_def example_embed_def doc_def index_add_def)
  have a: "run example_env [Query ''north'' None, Ingest [doc ''east''], Ingest [doc ''far east'']] None
     = Some [\<lparr>record_id = 0, vector = [1, 0], chunk = doc ''east''\<rparr>,
             \<lparr>record_id = 1, vector = [2, 0], chunk = doc ''far east''\<rparr>]"
    using vector_store_lazy_and_shared [of example_env _ "[Query ''north'' None, Ingest [doc ''east''], Ingest [doc ''far east'']]"] w
    by simp
  have "fst (similaritySearch example_env ''north'' (Some 1)
            (run example_env [Ingest [doc ''east''], Ingest [doc ''far east'']] None))
       = storeSimilaritySearch example_env
           [\<lparr>record_id = 0, vector = [1, 0], chunk = doc ''east''\<rparr>,
             \<lparr>record_id = 1, vector = [2, 0], chunk = doc ''far east''\<rparr>] ''north'' 1"
    using vector_store_lazy_and_shared [of example_env _ "[Ingest [doc ''far east'']]" "''north''" "Some 1" "Ingest [doc ''east'']"] w
    by simp
  also have "\<dots> = Inr [doc ''east'']"
    by (simp add: example_env_def core_env_sel store_similaritySearch_def example_embed_def search_def
        ranking_def score_defs doc_def)
  finally show ?thesis using a by simp
qed

section \<open>What an ingestion returns\<close>

lemma core_env_added:
  assumes "addDocuments (core_env emb split f) (fst (getVectorStore (core_env emb split f) p)) docs = (None, the p')"
    and "p' \<noteq> None"
  shows "length (records p') = length (records p) + length docs"
proof -
  from assms(2) obtain idx' where p': "p' = Some idx'" by auto
  with assms(1) have "store_addDocuments emb (records p) docs = (None, idx')"
    by (simp add: core_env_sel core_env_store)
  from store_addDocuments_None [OF this] p' show ?thesis by (simp add: records_def)
qed

text \<open>
  C9. A successful ingest splits the text with \<open>chunkSize = 1000\<close> and
  \<open>chunkOverlap = 200\<close> and returns the number of chunks the splitter produced: pasted
  text that is not blank, with a store that accepts the chunks, is answered with that
  number; and whenever one of the three handlers answers \<open>added = n\<close>, \<open>n\<close> is the
  number of chunks of the text split with that configuration, all of them were handed
  to the store in one call that did not throw, and with the store of the specification
  the index holds \<open>n\<close> records more.
\<close>

theorem ingest_returns_chunk_count:
  "(trim txt \<noteq> [] \<and> fst (addDocuments env (fst (getVectorStore env p)) (splitter env 1000 200 txt)) = None
      \<longrightarrow> text_POST env (Inr (Some (JStr txt))) p =
            (Json_added (length (splitter env 1000 200 txt)),
             Some (snd (addDocuments env (fst (getVectorStore env p)) (splitter env 1000 200 txt)))))
   \<and> (text_POST env (Inr v) p = (Json_added n, p')
      \<longrightarrow> (\<exists>t. v = Some (JStr t) \<and> trim t \<noteq> [] \<and> n = length (splitter env 1000 200 t)
               \<and> addDocuments env (fst (getVectorStore env p)) (splitter env 1000 200 t) = (None, the p')
               \<and> p' \<noteq> None))
   \<and> (upload_POST env (Inr (File_entry txt)) p = (Json_added n, p')
      \<longrightarrow> n = length (splitter env 1000 200 txt)
          \<and> addDocuments env (fst (getVectorStore env p)) (splitter env 1000 200 txt) = (None, the p')
          \<and> p' \<noteq> None)
   \<and> (youtube_POST env (Inr (Some url)) p = (Json_added n, p')
      \<longrightarrow> (\<exists>t. fetchTranscriptFromYouTube env url = Inr t \<and> n = length (splitter env 1000 200 t)
               \<and> addDocuments env (fst (getVectorStore env p)) (splitter env 1000 200 t) = (None, the p')
               \<and> p' \<noteq> None))
   \<and> (text_POST (core_env emb split f) (Inr v) q = (Json_added n, q')
        \<or> upload_POST (core_env emb split f) (Inr (File_entry txt)) q = (Json_added n, q')
        \<or> youtube_POST (core_env emb split f) (Inr (Some url)) q = (Json_added n, q')
      \<longrightarrow> length (records q') = length (records q) + n)"
proof -
  have c1: "trim txt \<noteq> [] \<and> fst (addDocuments env (fst (getVectorStore env p)) (splitter env 1000 200 txt)) = None
      \<longrightarrow> text_POST env (Inr (Some (JStr txt))) p =
            (Json_added (length (splitter env 1000 200 txt)),
             Some (snd (addDocuments env (fst (getVectorStore env p)) (splitter env 1000 200 txt))))"
    by (simp add: text_POST_accepted stored_def)
  have c2: "text_POST env (Inr v) p = (Json_added n, p')
      \<longrightarrow> (\<exists>t. v = Some (JStr t) \<and> trim t \<noteq> [] \<and> n = length (splitter env 1000 200 t)
               \<and> addDocuments env (fst (getVectorStore env p)) (splitter env 1000 200 t) = (None, the p')
               \<and> p' \<noteq> None)"
    by (rule impI) (rule text_POST_added)
  have c3: "upload_POST env (Inr (File_entry txt)) p = (Json_added n, p')
      \<longrightarrow> n = length (splitter env 1000 200 txt)
          \<and> addDocuments env (fst (getVectorStore env p)) (splitter env 1000 200 txt) = (None, the p')
          \<and> p' \<noteq> None"
    by (rule impI) (rule upload_POST_added)
  have c4: "youtube_POST env (Inr (Some url)) p = (Json_added n, p')
      \<longrightarrow> (\<exists>t. fetchTranscriptFromYouTube env url = Inr t \<and> n = length (splitter env 1000 200 t)
               \<and> addDocuments env (fst (getVectorStore env p)) (splitter env 1000 200 t) = (None, the p')
               \<and> p' \<noteq> None)"
    by (rule impI) (rule youtube_POST_added)
  have c5: "text_POST (core_env emb split f) (Inr v) q = (Json_added n, q')
        \<or> upload_POST (core_env emb split f) (Inr (File_entry txt)) q = (Json_added n, q')
        \<or> youtube_POST (core_env emb split f) (Inr (Some url)) q = (Json_added n, q')
      \<longrightarrow> length (records q') = length (records q) + n"
  proof (rule impI, elim disjE)
    assume "text_POST (core_env emb split f) (Inr v) q = (Json_added n, q')"
    from text_POST_added [OF this] show "length (records q') = length (records q) + n"
      using core_env_added by blast
  next
    assume "upload_POST (core_env emb split f) (Inr (File_entry txt)) q = (Json_added n, q')"
    from upload_POST_added [OF this] show "length (records q') = length (records q) + n"
      using core_env_added by blast
  next
    assume "youtube_POST (core_env emb split f) (Inr (Some url)) q = (Json_added n, q')"
    from youtube_POST_added [OF this] show "length (records q') = length (records q) + n"
      using core_env_added by blast
  qed
  from c1 c2 c3 c4 c5 show ?thesis by (intro conjI)
qed

theorem ingest_returns_chunk_count_witness:
  "text_POST example_env (Inr (Some (JStr ''east; far east''))) None =
     (Json_added 2, Some [\<lparr>record_id = 0, vector = [1, 0], chunk = doc ''east''\<rparr>,
                          \<lparr>record_id = 1, vector = [2, 0], chunk = doc ''far east''\<rparr>])"
proof -
  have s: "splitter example_env 1000 200 ''east; far east'' = [doc ''east'', doc ''far east'']"
    by (simp add: example_env_def core_env_sel example_split_def trim_def is_ws_def doc_def)
  have a: "addDocuments example_env (fst (getVectorStore example_env None)) [doc ''east'', doc ''far east'']
     = (None, [\<lparr>record_id = 0, vector = [1, 0], chunk = doc ''east''\<rparr>,
               \<lparr>record_id = 1, vector = [2, 0], chunk = doc ''far east''\<rparr>])"
    by (simp add: example_env_def core_env_sel core_env_store records_def store_addDocuments_def
        example_embed_def doc_def index_add_def)
  have t: "trim ''east; far east'' \<noteq> []"
    by (simp add: trim_def is_ws_def)
  from ingest_returns_chunk_count [of "''east; far east''" example_env None] t s a
  show ?thesis by simp
qed

section \<open>Validation of the query\<close>

text \<open>
  C1, as stated, fails: a query of three spaces is not refused. The handler tests
  \<open>!query\<close>, which only the missing and the empty query satisfy, so the search runs
  and its results are returned.
\<close>

theorem query_blank_counterexample:
  "trim ''   '' = []
   \<and> query_POST example_env (Inr (Some ''   '', None)) (Some example_index)
       = (Json_results [doc ''east'', doc ''far east'', doc ''east''], Some example_index)"
  by (simp add: trim_def is_ws_def query_POST_searched getVectorStore_Some example_env_def
      core_env_sel store_similaritySearch_def example_embed_def search_def ranking_def
      score_defs example_index_def doc_def)

text \<open>
  C1, amended. A query that is missing or the empty string fails with a validation
  error (status 400, \<open>Missing query\<close>) without a call to the search and without touching
  the module variable. Every other query, a whitespace-only one included, is passed
  untrimmed to the search of the store, with \<open>k\<close> defaulting to 4, and the handler
  answers with what the search returns (status 500 with its error if it throws).
\<close>

theorem query_validation:
  "(query = None \<or> query = Some []
      \<longrightarrow> query_POST env (Inr (query, k)) p = (Json_error 400 (Error ''Missing query''), p))
   \<and> (q \<noteq> []
      \<longrightarrow> query_POST env (Inr (Some q, k)) p =
            (case storeSimilaritySearch env (fst (getVectorStore env p)) q
                    (case k of None \<Rightarrow> 4 | Some n \<Rightarrow> n) of
               Inl err \<Rightarrow> Json_error 500 (caught ''Failed to query store'' err)
             | Inr results \<Rightarrow> Json_results results,
             Some (fst (getVectorStore env p))))
   \<and> ((\<exists>e. fst (query_POST env (Inr (query, k)) p) = Json_error 400 e)
        \<longleftrightarrow> query = None \<or> query = Some [])"
proof -
  have c1: "query = None \<or> query = Some []
      \<longrightarrow> query_POST env (Inr (query, k)) p = (Json_error 400 (Error ''Missing query''), p)"
    by (rule impI) (rule query_POST_refused)
  have c2: "q \<noteq> []
      \<longrightarrow> query_POST env (Inr (Some q, k)) p =
            (case storeSimilaritySearch env (fst (getVectorStore env p)) q
                    (case k of None \<Rightarrow> 4 | Some n \<Rightarrow> n) of
               Inl err \<Rightarrow> Json_error 500 (caught ''Failed to query store'' err)
             | Inr results \<Rightarrow> Json_results results,
             Some (fst (getVectorStore env p)))"
    by (rule impI) (rule query_POST_searched)
  have c3: "(\<exists>e. fst (query_POST env (Inr (query, k)) p) = Json_error 400 e)
        \<longleftrightarrow> query = None \<or> query = Some []"
  proof (cases "query = None \<or> query = Some []")
    case True
    then show ?thesis by (simp add: query_POST_refused)
  next
    case False
    then obtain t where "query = Some t" "t \<noteq> []" by auto
    with False show ?thesis
      by (simp add: query_POST_searched split: sum.splits)
  qed
  from c1 c2 c3 show ?thesis by (intro conjI)
qed

theorem query_validation_witness:
  "query_POST example_env (Inr (Some [], Some 2)) None = (Json_error 400 (Error ''Missing query''), None)
   \<and> query_POST example_env (Inr (Some ''east'', Some 2)) (Some example_index)
       = (Json_results [doc ''east'', doc ''far east''], Some example_index)"
proof -
  have a: "query_POST example_env (Inr (Some [], Some 2)) None = (Json_error 400 (Error ''Missing query''), None)"
    using query_validation [of "Some []" example_env "Some 2" None] by simp
  have "storeSimilaritySearch example_env example_index ''east'' 2 = Inr [doc ''east'', doc ''far east'']"
    by (simp add: example_env_def core_env_sel store_similaritySearch_def example_embed_def
        search_def ranking_def score_defs example_index_def doc_def)
  then have b: "query_POST example_env (Inr (Some ''east'', Some 2)) (Some example_index)
       = (Json_results [doc ''east'', doc ''far east''], Some example_index)"
    using query_validation [of _ example_env "Some 2" "Some example_index" "''east''"]
    by (simp add: getVectorStore_Some)
  from a b show ?thesis by (rule conjI)
qed

section \<open>Validation of the text to ingest\<close>

text \<open>
  C4, as stated, fails: an uploaded file of three spaces is not refused. The upload
  handler checks that a file was sent and never looks at its text; the splitter gives no
  chunk for it and the handler answers \<open>ok\<close> with \<open>added = 0\<close>.
\<close>

theorem upload_blank_counterexample:
  "trim ''   '' = []
   \<and> upload_POST example_env (Inr (File_entry ''   '')) None = (Json_added 0, Some [])"
  by (simp add: trim_def is_ws_def upload_POST_file stored_def getVectorStore_None example_env_def
      core_env_sel example_split_def store_addDocuments_def)

text \<open>
  C4, amended. Pasted text that is missing, not a string, or empty after trimming fails
  with a validation error (status 400, \<open>Missing text\<close>) and the module variable is left as
  it was. The text of an uploaded file and a fetched transcript are not validated: the
  handler never answers 400 for a file that was sent or for a URL that is not empty, and
  when the splitter returns no chunk for the text and the store adds none, the call
  succeeds with \<open>added = 0\<close> and the store is unchanged.
\<close>

theorem ingest_validation:
  "(\<not> truthy v \<or> \<not> is_string v \<or> trim (string_of v) = []
      \<longrightarrow> text_POST env (Inr v) p = (Json_error 400 (Error ''Missing text''), p))
   \<and> (\<forall>e. fst (upload_POST env (Inr (File_entry txt)) p) \<noteq> Json_error 400 e)
   \<and> (url \<noteq> [] \<longrightarrow> (\<forall>e. fst (youtube_POST env (Inr (Some url)) p) \<noteq> Json_error 400 e))
   \<and> (splitter env 1000 200 txt = []
        \<and> addDocuments env (fst (getVectorStore env p)) [] = (None, fst (getVectorStore env p))
      \<longrightarrow> upload_POST env (Inr (File_entry txt)) p = (Json_added 0, Some (fst (getVectorStore env p))))
   \<and> (url \<noteq> [] \<and> fetchTranscriptFromYouTube env url = Inr txt \<and> splitter env 1000 200 txt = []
        \<and> addDocuments env (fst (getVectorStore env p)) [] = (None, fst (getVectorStore env p))
      \<longrightarrow> youtube_POST env (Inr (Some url)) p = (Json_added 0, Some (fst (getVectorStore env p))))"
proof -
  have c1: "\<not> truthy v \<or> \<not> is_string v \<or> trim (string_of v) = []
      \<longrightarrow> text_POST env (Inr v) p = (Json_error 400 (Error ''Missing text''), p)"
    by (rule impI) (rule text_POST_refused)
  have c2: "\<forall>e. fst (upload_POST env (Inr (File_entry txt)) p) \<noteq> Json_error 400 e"
    by (simp add: upload_POST_file split: option.splits)
  have c3: "url \<noteq> [] \<longrightarrow> (\<forall>e. fst (youtube_POST env (Inr (Some url)) p) \<noteq> Json_error 400 e)"
  proof (rule impI)
    assume u: "url \<noteq> []"
    show "\<forall>e. fst (youtube_POST env (Inr (Some url)) p) \<noteq> Json_error 400 e"
    proof (cases "fetchTranscriptFromYouTube env url")
      case (Inl err)
      with u show ?thesis by (simp add: youtube_POST_def)
    next
      case (Inr t)
      from youtube_POST_transcript [OF u this] show ?thesis by (simp split: option.splits)
    qed
  qed
  have c4: "splitter env 1000 200 txt = []
        \<and> addDocuments env (fst (getVectorStore env p)) [] = (None, fst (getVectorStore env p))
      \<longrightarrow> upload_POST env (Inr (File_entry txt)) p = (Json_added 0, Some (fst (getVectorStore env p)))"
    by (simp add: upload_POST_file stored_def)
  have c5: "url \<noteq> [] \<and> fetchTranscriptFromYouTube env url = Inr txt \<and> splitter env 1000 200 txt = []
        \<and> addDocuments env (fst (getVectorStore env p)) [] = (None, fst (getVectorStore env p))
      \<longrightarrow> youtube_POST env (Inr (Some url)) p = (Json_added 0, Some (fst (getVectorStore env p)))"
    by (simp add: youtube_POST_transcript stored_def)
  from c1 c2 c3 c4 c5 show ?thesis by (intro conjI)
qed

theorem ingest_validation_witness:
  "text_POST example_env (Inr (Some (JStr ''   ''))) (Some example_index)
     = (Json_error 400 (Error ''Missing text''), Some example_index)
   \<and> text_POST example_env (Inr (Some (JNum 7))) None = (Json_error 400 (Error ''Missing text''), None)
   \<and> upload_POST example_env (Inr (File_entry '' ; '')) (Some example_index)
     = (Json_added 0, Some example_index)"
proof -
  have a: "text_POST example_env (Inr (Some (JStr ''   ''))) (Some example_index)
     = (Json_error 400 (Error ''Missing text''), Some example_index)"
    using ingest_validation [of "Some (JStr ''   '')" example_env "Some example_index"]
    by (simp add: trim_def is_ws_def)
  have b: "text_POST example_env (Inr (Some (JNum 7))) None = (Json_error 400 (Error ''Missing text''), None)"
    using ingest_validation [of "Some (JNum 7)" example_env None] by simp
  have s: "splitter example_env 1000 200 '' ; '' = []"
    by (simp add: example_env_def core_env_sel example_split_def trim_def is_ws_def)
  have d: "addDocuments example_env (fst (getVectorStore example_env (Some example_index))) []
             = (None, fst (getVectorStore example_env (Some example_index)))"
    by (simp add: example_env_def core_env_sel store_addDocuments_def)
  have c: "upload_POST example_env (Inr (File_entry '' ; '')) (Some example_index)
     = (Json_added 0, Some example_index)"
    using ingest_validation [of _ example_env "Some example_index" "'' ; ''"] s d
    by (simp add: getVectorStore_Some)
  from a b c show ?thesis by (intro conjI)
qed

section \<open>Search on an index without records\<close>

text \<open>
  C6. For every \<open>k\<close>, positive or not, and every query vector, \<open>search\<close> on an index
  holding zero records returns the empty sequence and no error; a store that was just
  created is such an index.
\<close>

theorem search_on_empty_index:
  "search [] q k = Inr [] \<and> search (newStore (core_env emb split f)) q k = Inr []"
  by (simp add: search_def core_env_sel)

section \<open>A chunk whose embedding fails\<close>

lemma caught_upstream: "caught fallback (upstream_failure u place) = upstream_failure u place"
  by (cases u) (simp_all add: caught_def)

lemma store_addDocuments_fails:
  assumes "\<exists>d \<in> set docs. \<exists>u. emb (pageContent d) = Inl u"
  shows "\<exists>j u. j < length docs \<and> emb (pageContent (docs ! j)) = Inl u
           \<and> (\<forall>m < j. \<exists>v. emb (pageContent (docs ! m)) = Inr v)
           \<and> (\<forall>idx. store_addDocuments emb idx docs = (Some (upstream_failure u (Some j)), idx))"
proof -
  from embed_chunks_fails [OF assms, of 0] obtain j u where
    "j < length docs" "emb (pageContent (docs ! j)) = Inl u"
    "\<forall>m < j. \<exists>v. emb (pageContent (docs ! m)) = Inr v"
    "embed_chunks emb 0 docs = Inl (upstream_failure u (Some (0 + j)))"
    by blast
  then show ?thesis by (auto simp: store_addDocuments_def)
qed

text \<open>
  C5. If the embedding fails for any chunk of an ingestion, the whole call fails, the
  error names the first chunk whose embedding failed, and the index holds the records it
  held before: this holds for \<open>addDocuments\<close> of the store, for \<open>addDocumentsToStore\<close>,
  and for the handlers of pasted text and of uploaded files, which answer with status
  500 and that error.
\<close>

theorem embedding_failure_fails_ingestion:
  assumes "\<exists>d \<in> set docs. \<exists>u. emb (pageContent d) = Inl u"
  shows "\<exists>j u. j < length docs \<and> emb (pageContent (docs ! j)) = Inl u
           \<and> (\<forall>m < j. \<exists>v. emb (pageContent (docs ! m)) = Inr v)
           \<and> store_addDocuments emb idx docs = (Some (upstream_failure u (Some j)), idx)
           \<and> addDocumentsToStore (core_env emb split f) docs p
               = (Some (upstream_failure u (Some j)), Some (records p))
           \<and> (\<forall>txt. trim txt \<noteq> [] \<and> split 1000 200 txt = docs \<longrightarrow>
                 text_POST (core_env emb split f) (Inr (Some (JStr txt))) p
                   = (Json_error 500 (upstream_failure u (Some j)), Some (records p)))
           \<and> (\<forall>txt. split 1000 200 txt = docs \<longrightarrow>
                 upload_POST (core_env emb split f) (Inr (File_entry txt)) p
                   = (Json_error 500 (upstream_failure u (Some j)), Some (records p)))"
proof -
  from store_addDocuments_fails [OF assms] obtain j u where
    j: "j < length docs" "emb (pageContent (docs ! j)) = Inl u"
    "\<forall>m < j. \<exists>v. emb (pageContent (docs ! m)) = Inr v"
    and all: "\<forall>idx. store_addDocuments emb idx docs = (Some (upstream_failure u (Some j)), idx)"
    by blast
  from all have s: "store_addDocuments emb (records p) docs = (Some (upstream_failure u (Some j)), records p)"
    and s': "store_addDocuments emb idx docs = (Some (upstream_failure u (Some j)), idx)"
    by simp_all
  have a: "addDocumentsToStore (core_env emb split f) docs p
               = (Some (upstream_failure u (Some j)), Some (records p))"
    by (simp add: addDocumentsToStore_eq core_env_store core_env_sel s)
  have t: "\<forall>txt. trim txt \<noteq> [] \<and> split 1000 200 txt = docs \<longrightarrow>
                 text_POST (core_env emb split f) (Inr (Some (JStr txt))) p
                   = (Json_error 500 (upstream_failure u (Some j)), Some (records p))"
    by (auto simp: text_POST_accepted stored_def core_env_store core_env_sel s caught_upstream)
  have up: "\<forall>txt. split 1000 200 txt = docs \<longrightarrow>
                 upload_POST (core_env emb split f) (Inr (File_entry txt)) p
                   = (Json_error 500 (upstream_failure u (Some j)), Some (records p))"
    by (auto simp: upload_POST_file stored_def core_env_store core_env_sel s caught_upstream)
  from j s' a t up show ?thesis by blast
qed

theorem embedding_failure_fails_ingestion_witness:
  "(\<exists>j u. j < 3 \<and> example_embed (pageContent ([doc ''east'', doc ''boom'', doc ''north''] ! j)) = Inl u
       \<and> text_POST example_env (Inr (Some (JStr ''east;boom;north''))) (Some example_index)
           = (Json_error 500 (upstream_failure u (Some j)), Some example_index))
   \<and> text_POST example_env (Inr (Some (JStr ''east;boom;north''))) (Some example_index)
       = (Json_error 500 (EmbeddingFailure (Some 1)), Some example_index)"
proof -
  let ?docs = "[doc ''east'', doc ''boom'', doc ''north'']"
  have h: "\<exists>d \<in> set ?docs. \<exists>u. example_embed (pageContent d) = Inl u"
    by (simp add: example_embed_def doc_def)
  have sp: "example_split 1000 200 ''east;boom;north'' = ?docs"
    by (simp add: example_split_def trim_def is_ws_def doc_def)
  have tr: "trim ''east;boom;north'' \<noteq> []"
    by (simp add: trim_def is_ws_def)
  from embedding_failure_fails_ingestion [OF h, of example_index example_split example_fetch "Some example_index"]
  obtain j u where "j < length ?docs" "example_embed (pageContent (?docs ! j)) = Inl u"
    and "\<forall>txt. trim txt \<noteq> [] \<and> example_split 1000 200 txt = ?docs \<longrightarrow>
                 text_POST (core_env example_embed example_split example_fetch) (Inr (Some (JStr txt))) (Some example_index)
                   = (Json_error 500 (upstream_failure u (Some j)), Some (records (Some example_index)))"
    by blast
  note found = this
  from found(3) sp tr have "text_POST (core_env example_embed example_split example_fetch)
           (Inr (Some (JStr ''east;boom;north''))) (Some example_index)
         = (Json_error 500 (upstream_failure u (Some j)), Some (records (Some example_index)))"
    by blast
  with found(1,2) have "j < 3 \<and> example_embed (pageContent (?docs ! j)) = Inl u
       \<and> text_POST example_env (Inr (Some (JStr ''east;boom;north''))) (Some example_index)
           = (Json_error 500 (upstream_failure u (Some j)), Some example_index)"
    by (simp add: example_env_def records_def)
  then have a: "\<exists>j u. j < 3 \<and> example_embed (pageContent (?docs ! j)) = Inl u
       \<and> text_POST example_env (Inr (Some (JStr ''east;boom;north''))) (Some example_index)
           = (Json_error 500 (upstream_failure u (Some j)), Some example_index)"
    by blast
  have b: "text_POST example_env (Inr (Some (JStr ''east;boom;north''))) (Some example_index)
       = (Json_error 500 (EmbeddingFailure (Some 1)), Some example_index)"
    by (simp add: text_POST_accepted tr stored_def getVectorStore_Some example_env_def core_env_sel sp
        store_addDocuments_def example_embed_def doc_def caught_def)
  from a b show ?thesis by (rule conjI)
qed

section \<open>Ingesting the same text twice\<close>

lemma index_add_duplicate:
  assumes "r \<in> set idx" "length (vector r) = length (vector (hd idx))"
  shows "index_add idx (vector r, chunk r)
           = Inr (idx @ [\<lparr>record_id = length idx, vector = vector r, chunk = chunk r\<rparr>])"
  using assms by (cases idx) (simp_all add: index_add_def)

text \<open>
  C8. Adding never looks at the content: whether \<open>add\<close> accepts a vector and a chunk
  depends on the length of the vector alone, and a record equal in vector and chunk to
  one the index holds is appended again. If ingesting a text answered \<open>added = n\<close>,
  ingesting the same text again answers \<open>added = n\<close> again, the index then holds \<open>n\<close>
  records more than after the first call, which held \<open>n\<close> more than before it, and the
  chunks of the last \<open>n\<close> records are those of the \<open>n\<close> before them.
\<close>

theorem ingest_twice_adds_twice:
  assumes "text_POST (core_env emb split f) (Inr v) p0 = (Json_added n, p1)"
  shows "(\<exists>p2. text_POST (core_env emb split f) (Inr v) p1 = (Json_added n, p2)
            \<and> length (records p1) = length (records p0) + n
            \<and> length (records p2) = length (records p1) + n
            \<and> map chunk (drop (length (records p1)) (records p2))
                = map chunk (drop (length (records p0)) (records p1)))
         \<and> ((\<exists>idx'. index_add idx (w, c) = Inr idx') \<longleftrightarrow> (\<exists>idx'. index_add idx (w, c') = Inr idx'))
         \<and> (r \<in> set idx \<and> length (vector r) = length (vector (hd idx))
              \<longrightarrow> index_add idx (vector r, chunk r)
                    = Inr (idx @ [\<lparr>record_id = length idx, vector = vector r, chunk = chunk r\<rparr>]))"
proof -
  let ?E = "core_env emb split f"
  from text_POST_added [OF assms] obtain t where
    v: "v = Some (JStr t)" and t: "trim t \<noteq> []" and n: "n = length (splitter ?E 1000 200 t)"
    and a: "addDocuments ?E (fst (getVectorStore ?E p0)) (splitter ?E 1000 200 t) = (None, the p1)"
    and p1: "p1 \<noteq> None"
    by blast
  let ?docs = "split 1000 200 t"
  from p1 obtain idx1 where i1: "p1 = Some idx1" by auto
  from a i1 have s1: "store_addDocuments emb (records p0) ?docs = (None, idx1)"
    by (simp add: core_env_sel core_env_store)
  from store_addDocuments_again [OF s1] obtain idx2 where
    s2: "store_addDocuments emb idx1 ?docs = (None, idx2)" by blast
  from n have n': "n = length ?docs" by (simp add: core_env_sel)
  have second: "text_POST ?E (Inr v) p1 = (Json_added n, Some idx2)"
    using t by (simp add: v text_POST_accepted stored_def core_env_sel core_env_store i1 records_def s2 n')
  from store_addDocuments_None [OF s1] store_addDocuments_None [OF s2] n'
  have "length (records p1) = length (records p0) + n"
    "length (records (Some idx2)) = length (records p1) + n"
    "map chunk (drop (length (records p1)) (records (Some idx2)))
                = map chunk (drop (length (records p0)) (records p1))"
    by (simp_all add: i1 records_def)
  with second have first: "\<exists>p2. text_POST ?E (Inr v) p1 = (Json_added n, p2)
            \<and> length (records p1) = length (records p0) + n
            \<and> length (records p2) = length (records p1) + n
            \<and> map chunk (drop (length (records p1)) (records p2))
                = map chunk (drop (length (records p0)) (records p1))"
    by blast
  have blind: "(\<exists>idx'. index_add idx (w, c) = Inr idx') \<longleftrightarrow> (\<exists>idx'. index_add idx (w, c') = Inr idx')"
    by (simp only: index_add_content_blind)
  have dup: "r \<in> set idx \<and> length (vector r) = length (vector (hd idx))
              \<longrightarrow> index_add idx (vector r, chunk r)
                    = Inr (idx @ [\<lparr>record_id = length idx, vector = vector r, chunk = chunk r\<rparr>])"
    by (simp add: index_add_duplicate)
  from first blind dup show ?thesis by (intro conjI)
qed

theorem ingest_twice_adds_twice_witness:
  "text_POST example_env (Inr (Some (JStr ''east;north''))) None
     = (Json_added 2, Some [\<lparr>record_id = 0, vector = [1, 0], chunk = doc ''east''\<rparr>,
                          \<lparr>record_id = 1, vector = [0, 1], chunk = doc ''north''\<rparr>])
   \<and> (\<exists>p2. text_POST example_env (Inr (Some (JStr ''east;north'')))
              (Some [\<lparr>record_id = 0, vector = [1, 0], chunk = doc ''east''\<rparr>,
                     \<lparr>record_id = 1, vector = [0, 1], chunk = doc ''north''\<rparr>])
             = (Json_added 2, p2)
           \<and> length (records p2) = 4)
   \<and> text_POST example_env (Inr (Some (JStr ''east;north'')))
              (Some [\<lparr>record_id = 0, vector = [1, 0], chunk = doc ''east''\<rparr>,
                     \<lparr>record_id = 1, vector = [0, 1], chunk = doc ''north''\<rparr>])
       = (Json_added 2, Some [\<lparr>record_id = 0, vector = [1, 0], chunk = doc ''east''\<rparr>,
                     \<lparr>record_id = 1, vector = [0, 1], chunk = doc ''north''\<rparr>,
                     \<lparr>record_id = 2, vector = [1, 0], chunk = doc ''east''\<rparr>,
                     \<lparr>record_id = 3, vector = [0, 1], chunk = doc ''north''\<rparr>])"
proof -
  let ?p1 = "Some [\<lparr>record_id = 0, vector = [1, 0], chunk = doc ''east''\<rparr>,
                   \<lparr>record_id = 1, vector = [0, 1], chunk = doc ''north''\<rparr>]"
  have tr: "trim ''east;north'' \<noteq> []"
    by (simp add: trim_def is_ws_def)
  have sp: "example_split 1000 200 ''east;north'' = [doc ''east'', doc ''north'']"
    by (simp add: example_split_def trim_def is_ws_def doc_def)
  have a: "text_POST example_env (Inr (Some (JStr ''east;north''))) None = (Json_added 2, ?p1)"
    by (simp add: text_POST_accepted tr stored_def getVectorStore_None example_env_def core_env_sel sp
        store_addDocuments_def example_embed_def doc_def index_add_def)
  from ingest_twice_adds_twice [OF a [unfolded example_env_def]]
  obtain p2 where "text_POST example_env (Inr (Some (JStr ''east;north''))) ?p1 = (Json_added 2, p2)"
    and "length (records p2) = length (records ?p1) + 2"
    unfolding example_env_def by blast
  then have b: "\<exists>p2. text_POST example_env (Inr (Some (JStr ''east;north''))) ?p1 = (Json_added 2, p2)
           \<and> length (records p2) = 4"
    by (auto simp: records_def)
  have c: "text_POST example_env (Inr (Some (JStr ''east;north''))) ?p1
       = (Json_added 2, Some [\<lparr>record_id = 0, vector = [1, 0], chunk = doc ''east''\<rparr>,
                     \<lparr>record_id = 1, vector = [0, 1], chunk = doc ''north''\<rparr>,
                     \<lparr>record_id = 2, vector = [1, 0], chunk = doc ''east''\<rparr>,
                     \<lparr>record_id = 3, vector = [0, 1], chunk = doc ''north''\<rparr>])"
    by (simp add: text_POST_accepted tr stored_def getVectorStore_Some example_env_def core_env_sel sp
        store_addDocuments_def example_embed_def doc_def index_add_def)
  from a b c show ?thesis by (intro conjI)
qed

section \<open>What a query returns\<close>

text \<open>
  C3, as stated, fails: the elements a query returns are the chunks alone. Two queries
  whose vectors have different similarity to the one stored record, 1 and 0, are
  answered with the same sequence, which therefore carries no score.
\<close>

theorem query_results_counterexample:
  "search [\<lparr>record_id = 0, vector = [1, 0], chunk = doc ''east''\<rparr>] [1, 0] 4
     = Inr [\<lparr>result_chunk = doc ''east'', score = 1\<rparr>]
   \<and> search [\<lparr>record_id = 0, vector = [1, 0], chunk = doc ''east''\<rparr>] [0, 1] 4
     = Inr [\<lparr>result_chunk = doc ''east'', score = 0\<rparr>]
   \<and> fst (query_POST example_env (Inr (Some ''east'', None))
            (Some [\<lparr>record_id = 0, vector = [1, 0], chunk = doc ''east''\<rparr>]))
       = Json_results [doc ''east'']
   \<and> fst (query_POST example_env (Inr (Some ''north'', None))
            (Some [\<lparr>record_id = 0, vector = [1, 0], chunk = doc ''east''\<rparr>]))
       = Json_results [doc ''east'']"
  by (simp add: query_POST_searched getVectorStore_Some example_env_def core_env_sel
      store_similaritySearch_def example_embed_def search_def ranking_def score_defs doc_def)

text \<open>
  C3, amended. Every element of the sequence a successful query returns is the chunk
  (page content and metadata) of a record of the index, in the order of the search for
  the embedded query text with \<open>k\<close> defaulting to 4; the score of each result is the
  similarity of the query vector to that record's vector, and it is not part of what
  the query returns.
\<close>

theorem query_returns_chunks:
  assumes "query_POST (core_env emb split f) (Inr (Some query, k)) p = (Json_results docs, p')"
  shows "\<exists>q results. emb query = Inr q
           \<and> search (records p) q (case k of None \<Rightarrow> 4 | Some n \<Rightarrow> n) = Inr results
           \<and> docs = map result_chunk results
           \<and> (\<forall>r \<in> set results. \<exists>ir \<in> set (records p).
                  result_chunk r = chunk ir \<and> score r = cosine_similarity q (vector ir))"
proof -
  let ?E = "core_env emb split f"
  let ?k = "case k of None \<Rightarrow> 4 | Some n \<Rightarrow> n"
  from assms have ne: "query \<noteq> []" by (auto simp: query_POST_def)
  from assms have s: "store_similaritySearch emb (records p) query ?k = Inr docs"
    by (simp add: query_POST_searched [OF ne] core_env_store core_env_sel split: sum.splits)
  then obtain q where q: "emb query = Inr q"
    by (cases "emb query") (simp_all add: store_similaritySearch_def)
  with s obtain results where r: "search (records p) q ?k = Inr results"
    and d: "docs = map result_chunk results"
    by (cases "search (records p) q ?k") (auto simp: store_similaritySearch_def)
  have "\<forall>r \<in> set results. \<exists>ir \<in> set (records p).
                  result_chunk r = chunk ir \<and> score r = cosine_similarity q (vector ir)"
    using search_results_from_index [OF r] by blast
  with q r d show ?thesis by blast
qed

theorem query_returns_chunks_witness:
  "query_POST example_env (Inr (Some ''east'', Some 2)) (Some example_index)
     = (Json_results [doc ''east'', doc ''far east''], Some example_index)
   \<and> (\<exists>q results. example_embed ''east'' = Inr q
           \<and> search example_index q 2 = Inr results
           \<and> [doc ''east'', doc ''far east''] = map result_chunk results)"
proof -
  have a: "query_POST example_env (Inr (Some ''east'', Some 2)) (Some example_index)
     = (Json_results [doc ''east'', doc ''far east''], Some example_index)"
    by (simp add: query_POST_searched getVectorStore_Some example_env_def core_env_sel
      store_similaritySearch_def example_embed_def search_def ranking_def score_defs
      example_index_def doc_def)
  from query_returns_chunks [OF a [unfolded example_env_def]]
  have "\<exists>q results. example_embed ''east'' = Inr q
           \<and> search example_index q 2 = Inr results
           \<and> [doc ''east'', doc ''far east''] = map result_chunk results"
    by (auto simp: records_def)
  with a show ?thesis by (rule conjI)
qed

section \<open>The order of the results\<close>

text \<open>
  C2, as stated, fails: records holding identical vectors need not be adjacent. Records
  0 and 2 of the index below hold the vector (1, 0); record 1 holds (2, 0), which has
  the same similarity 1 to the query (1, 0), and the tie-break by id puts it between
  them.
\<close>

theorem search_adjacency_counterexample:
  "vector (example_index ! 0) = vector (example_index ! 2)
   \<and> vector (example_index ! 1) \<noteq> vector (example_index ! 0)
   \<and> ranking example_index [1, 0] = [example_index ! 0, example_index ! 1, example_index ! 2]
   \<and> search example_index [1, 0] 3
       = Inr [\<lparr>result_chunk = doc ''east'', score = 1\<rparr>,
              \<lparr>result_chunk = doc ''far east'', score = 1\<rparr>,
              \<lparr>result_chunk = doc ''east'', score = 1\<rparr>]"
  by (simp add: search_def ranking_def score_defs example_index_def doc_def)

text \<open>
  C2, amended. For every index and every query vector of the index's dimension,
  \<open>search\<close> scores every stored record by cosine similarity and returns the first \<open>k\<close>
  of them in the order of descending score, ties broken by ascending insertion id
  (strictly ascending when the ids are the sequential ones \<open>add\<close> assigns, as they
  are in every index a process builds). Records
  holding identical vectors have equal scores, and every result between two of them has
  that same score; they need not be adjacent.
\<close>

theorem search_ranks_by_score_then_id:
  "mset (ranking idx q) = mset idx
   \<and> sorted_wrt (ranks_before q) (take (nat k) (ranking idx q))
   \<and> (map record_id idx = [0 ..< length idx] \<longrightarrow>
        sorted_wrt (\<lambda>a b. cosine_similarity q (vector a) > cosine_similarity q (vector b)
            \<or> (cosine_similarity q (vector a) = cosine_similarity q (vector b)
                \<and> record_id a < record_id b))
          (take (nat k) (ranking idx q)))
   \<and> (idx = [] \<or> length q = length (vector (hd idx)) \<longrightarrow>
        search idx q k
          = Inr (map (\<lambda>r. \<lparr>result_chunk = chunk r, score = cosine_similarity q (vector r)\<rparr>)
                   (take (nat k) (ranking idx q))))
   \<and> (\<forall>i m j. i < m \<and> m < j \<and> j < length (take (nat k) (ranking idx q))
          \<and> vector (take (nat k) (ranking idx q) ! i) = vector (take (nat k) (ranking idx q) ! j)
        \<longrightarrow> cosine_similarity q (vector (take (nat k) (ranking idx q) ! m))
              = cosine_similarity q (vector (take (nat k) (ranking idx q) ! i)))"
proof -
  let ?rs = "take (nat k) (ranking idx q)"
  have c1: "mset (ranking idx q) = mset idx" by (rule ranking_mset)
  have c2: "sorted_wrt (ranks_before q) ?rs" by (rule top_sorted)
  have c3: "map record_id idx = [0 ..< length idx] \<longrightarrow>
        sorted_wrt (\<lambda>a b. cosine_similarity q (vector a) > cosine_similarity q (vector b)
            \<or> (cosine_similarity q (vector a) = cosine_similarity q (vector b)
                \<and> record_id a < record_id b)) ?rs"
    by (rule impI) (rule top_sorted_strict)
  have c4: "idx = [] \<or> length q = length (vector (hd idx)) \<longrightarrow>
        search idx q k
          = Inr (map (\<lambda>r. \<lparr>result_chunk = chunk r, score = cosine_similarity q (vector r)\<rparr>) ?rs)"
    by (cases idx) (simp_all add: search_def ranking_def)
  have c5: "\<forall>i m j. i < m \<and> m < j \<and> j < length ?rs \<and> vector (?rs ! i) = vector (?rs ! j)
        \<longrightarrow> cosine_similarity q (vector (?rs ! m)) = cosine_similarity q (vector (?rs ! i))"
    using between_equal_scores [OF c2] by blast
  from c1 c2 c3 c4 c5 show ?thesis by (intro conjI)
qed

theorem search_ranks_by_score_then_id_witness:
  "search example_index [0, 1] 2
     = Inr [\<lparr>result_chunk = doc ''east'', score = 0\<rparr>, \<lparr>result_chunk = doc ''far east'', score = 0\<rparr>]
   \<and> sorted_wrt (\<lambda>a b. cosine_similarity [0, 1] (vector a) > cosine_similarity [0, 1] (vector b)
            \<or> (cosine_similarity [0, 1] (vector a) = cosine_similarity [0, 1] (vector b)
                \<and> record_id a < record_id b))
          (take 2 (ranking example_index [0, 1]))
   \<and> cosine_similarity [1, 0] (vector (take 3 (ranking example_index [1, 0]) ! 1))
       = cosine_similarity [1, 0] (vector (take 3 (ranking example_index [1, 0]) ! 0))"
proof -
  have seq: "map record_id example_index = [0 ..< length example_index]"
    by (simp add: example_index_def upt_rec)
  have dim: "example_index = [] \<or> length [0, 1 :: real] = length (vector (hd example_index))"
    by (simp add: example_index_def)
  have r: "ranking example_index [0, 1] = example_index"
    by (simp add: ranking_def score_defs example_index_def)
  have a: "search example_index [0, 1] 2
     = Inr [\<lparr>result_chunk = doc ''east'', score = 0\<rparr>, \<lparr>result_chunk = doc ''far east'', score = 0\<rparr>]"
    using search_ranks_by_score_then_id [of example_index "[0, 1]" 2] dim
    by (simp add: r) (simp add: example_index_def score_defs)
  have b: "sorted_wrt (\<lambda>a b. cosine_similarity [0, 1] (vector a) > cosine_similarity [0, 1] (vector b)
            \<or> (cosine_similarity [0, 1] (vector a) = cosine_similarity [0, 1] (vector b)
                \<and> record_id a < record_id b))
          (take 2 (ranking example_index [0, 1]))"
    using search_ranks_by_score_then_id [of example_index "[0, 1]" 2] seq by simp
  have len: "length (take (nat 3) (ranking example_index [1, 0])) = 3"
    by (simp add: ranking_def example_index_def)
  have same: "vector (take (nat 3) (ranking example_index [1, 0]) ! 0)
                = vector (take (nat 3) (ranking example_index [1, 0]) ! 2)"
    by (simp add: ranking_def score_defs example_index_def)
  have c: "cosine_similarity [1, 0] (vector (take 3 (ranking example_index [1, 0]) ! 1))
       = cosine_similarity [1, 0] (vector (take 3 (ranking example_index [1, 0]) ! 0))"
    using search_ranks_by_score_then_id [of example_index "[1, 0]" 3,
        THEN conjunct2, THEN conjunct2, THEN conjunct2, THEN conjunct2, rule_format, of 0 1 2]
      len same
    by simp
  from a b c show ?thesis by (intro conjI)
qed

end
